theory Spec2Isabelle
  imports Complex_Main
begin

section \<open>Numbers\<close>

text \<open>
  The elements of a Float32Array and the geographic quantities are modelled as real
  numbers: their arithmetic is exact, and there is no NaN and no infinity. The speed
  factor of line 215 is computed in doubles, modelled below, because its value depends on
  rounding and overflow. Counts (numParticles, maxAge) are natural numbers; numAgedInstances
  is an integer, because the source computes it with a subtraction.
\<close>

type_synonym lnglat = "real \<times> real"
  \<comment> \<open>a two-element array [longitude, latitude]: index 0 is \<open>fst\<close>, index 1 is \<open>snd\<close>\<close>

definition EARTH_RADIUS :: real where
  "EARTH_RADIUS = 6370972"

text \<open>Math.atan2(y, x), by quadrant.\<close>

definition atan2 :: "real \<Rightarrow> real \<Rightarrow> real" where
  "atan2 y x =
     (if 0 < x then arctan (y / x)
      else if x < 0 then (if 0 \<le> y then arctan (y / x) + pi else arctan (y / x) - pi)
      else if 0 < y then pi / 2
      else if y < 0 then - (pi / 2)
      else 0)"

section \<open>Doubles\<close>

text \<open>
  A JavaScript number: a finite double, an infinity or NaN. The model has one zero.
  \<open>to_double x\<close> is the Number value for the real x: x rounded to the nearest double,
  ties to even, with 53 significant bits and exponents down to the subnormals, and an
  infinity when the rounded magnitude reaches 2^1024.
\<close>

datatype jsnum = Num real | PosInf | NegInf | NaN

definition round_even :: "real \<Rightarrow> int" where
  "round_even q =
     (let f = \<lfloor>q\<rfloor>; r = q - of_int f
      in if r < 1 / 2 then f
         else if 1 / 2 < r then f + 1
         else if even f then f else f + 1)"

definition to_double :: "real \<Rightarrow> jsnum" where
  "to_double x =
     (if x = 0 then Num 0
      else
        let e = max (\<lfloor>log 2 \<bar>x\<bar>\<rfloor> - 52) (- 1074);
            y = of_int (round_even (x / 2 powr of_int e)) * 2 powr of_int e
        in if 2 powr 1024 \<le> \<bar>y\<bar> then (if 0 < x then PosInf else NegInf) else Num y)"


text \<open>The product of two finite numbers, and the quotient of two numbers.\<close>

definition js_times :: "real \<Rightarrow> real \<Rightarrow> jsnum" where
  "js_times a b = to_double (a * b)"

fun js_divide :: "jsnum \<Rightarrow> jsnum \<Rightarrow> jsnum" where
  "js_divide NaN b = NaN"
| "js_divide a NaN = NaN"
| "js_divide PosInf PosInf = NaN"
| "js_divide PosInf NegInf = NaN"
| "js_divide NegInf PosInf = NaN"
| "js_divide NegInf NegInf = NaN"
| "js_divide PosInf (Num b) = (if b < 0 then NegInf else PosInf)"
| "js_divide NegInf (Num b) = (if b < 0 then PosInf else NegInf)"
| "js_divide (Num a) PosInf = Num 0"
| "js_divide (Num a) NegInf = Num 0"
| "js_divide (Num a) (Num b) =
     (if b = 0 then (if a = 0 then NaN else if 0 < a then PosInf else NegInf)
      else to_double (a / b))"

text \<open>
  The language asks of \<open>**\<close> only an approximation of the power, so the engine's
  exponentiation is a parameter of a frame. \<open>exact_pow\<close> is the exponentiation that
  returns the Number value for the power of a positive base.
\<close>

definition exact_pow :: "real \<Rightarrow> real \<Rightarrow> jsnum" where
  "exact_pow b x = to_double (b powr x)"

section \<open>Great-circle distance\<close>

text \<open>\<open>distanceTo(from, point)\<close>, lines 22 to 35 of particle-layer.js.\<close>

definition distanceTo :: "lnglat \<Rightarrow> lnglat \<Rightarrow> real" where
  "distanceTo from point =
     (let phi1 = snd from * pi / 180;
          lam1 = fst from * pi / 180;
          phi2 = snd point * pi / 180;
          lam2 = fst point * pi / 180;
          dphi = phi2 - phi1;
          dlam = lam2 - lam1;
          a = sin (dphi / 2) * sin (dphi / 2)
              + cos phi1 * cos phi2 * sin (dlam / 2) * sin (dlam / 2);
          c = 2 * atan2 (sqrt a) (sqrt (1 - a));
          d = EARTH_RADIUS * c
      in d)"

text \<open>
  The haversine formula as the specification words it, on angles in radians:
  a = sin(dphi/2)^2 + cos(phi1) cos(phi2) sin(dlam/2)^2, c = 2 atan2(sqrt a, sqrt (1 - a)),
  distance = R c with R = 6,370,972 m. It is compared with \<open>distanceTo\<close> below.
\<close>

definition haversine_spec :: "real \<Rightarrow> real \<Rightarrow> real \<Rightarrow> real \<Rightarrow> real" where
  "haversine_spec phi1 lam1 phi2 lam2 =
     (let a = (sin ((phi2 - phi1) / 2))\<^sup>2 + cos phi1 * cos phi2 * (sin ((lam2 - lam1) / 2))\<^sup>2;
          c = 2 * atan2 (sqrt a) (sqrt (1 - a))
      in 6370972 * c)"

definition radians :: "real \<Rightarrow> real" where
  "radians deg = deg * pi / 180"

text \<open>
  The sphere radius as the specification words it: the greatest of the three haversine
  distances from the geographic center to the unprojections of three screen points.
\<close>

definition spec_distance :: "lnglat \<Rightarrow> lnglat \<Rightarrow> real" where
  "spec_distance c q =
     haversine_spec (radians (snd c)) (radians (fst c)) (radians (snd q)) (radians (fst q))"

section \<open>The viewport and the per-frame uniforms\<close>

record viewport =
  resolution :: "real option"  \<comment> \<open>defined on a globe viewport only\<close>
  longitude :: real
  latitude :: real
  width :: real
  height :: real
  zoom :: real
  unproject :: "real \<times> real \<Rightarrow> lnglat"
  getBounds :: "real \<times> real \<times> real \<times> real"

definition spec_probe_radius ::
    "viewport \<Rightarrow> real \<times> real \<Rightarrow> real \<times> real \<Rightarrow> real \<times> real \<Rightarrow> real" where
  "spec_probe_radius vp p1 p2 p3 =
     Max {spec_distance (longitude vp, latitude vp) (unproject vp p1),
          spec_distance (longitude vp, latitude vp) (unproject vp p2),
          spec_distance (longitude vp, latitude vp) (unproject vp p3)}"

record frame =
  viewport :: viewport
  devicePixelRatio :: real  \<comment> \<open>gl.luma.canvasSizeInfo.devicePixelRatio\<close>
  timeline_getTime :: real
  exponentiate :: "real \<Rightarrow> real \<Rightarrow> jsnum"  \<comment> \<open>the engine's \<open>**\<close> on finite numbers\<close>

record props =
  image_tex :: "nat option"  \<comment> \<open>the prop \<open>image\<close>: a texture, or null\<close>
  bounds :: "real \<times> real \<times> real \<times> real"
  numParticles :: nat
  maxAge :: nat
  speedFactor :: real
  animate :: bool

record uniforms =
  speedTexture :: nat
  u_bounds :: "real \<times> real \<times> real \<times> real"
  u_numParticles :: nat
  u_maxAge :: nat
  viewportSphere :: nat
  viewportSphereCenter :: lnglat
  viewportSphereRadius :: real
  viewportBounds :: "real \<times> real \<times> real \<times> real"
  viewportSpeedFactor :: jsnum
  time :: real
  seed :: real

text \<open>
  The values computed at the head of \<open>_runTransformFeedback\<close> (lines 200 to 215), one
  definition for each constant of the source: viewportSphere, viewportSphereCenter,
  viewportSphereRadius, viewportBounds and viewportSpeedFactor. \<open>frameUniforms\<close> is the
  uniforms object of lines 229 to 243; its seed is the value that Math.random() returned.
\<close>

definition sphereOf :: "viewport \<Rightarrow> nat" where
  "sphereOf vp = (case resolution vp of None \<Rightarrow> 0 | Some r \<Rightarrow> if r = 0 then 0 else 1)"

definition sphereCenterOf :: "viewport \<Rightarrow> lnglat" where
  "sphereCenterOf vp = (longitude vp, latitude vp)"

definition sphereRadiusOf :: "viewport \<Rightarrow> real" where
  "sphereRadiusOf vp =
     max (max (distanceTo (sphereCenterOf vp) (unproject vp (0, 0)))
              (distanceTo (sphereCenterOf vp) (unproject vp (width vp / 2, 0))))
         (distanceTo (sphereCenterOf vp) (unproject vp (0, height vp / 2)))"

definition boundsOf :: "viewport \<Rightarrow> real \<times> real \<times> real \<times> real" where
  "boundsOf vp =
     (case getBounds vp of (b0, b1, b2, b3) \<Rightarrow>
        (b0, max b1 (- 85.051129), b2, min b3 85.051129))"

definition speedFactorOf ::
    "(real \<Rightarrow> real \<Rightarrow> jsnum) \<Rightarrow> real \<Rightarrow> real \<Rightarrow> real \<Rightarrow> jsnum" where
  "speedFactorOf pow' speedFactor' devicePixelRatio' zoom' =
     js_divide (js_times speedFactor' devicePixelRatio') (pow' 2 zoom')"

definition frameUniforms :: "props \<Rightarrow> frame \<Rightarrow> nat \<Rightarrow> real \<Rightarrow> uniforms" where
  "frameUniforms p fr img rnd =
     \<lparr> speedTexture = img,
       u_bounds = bounds p,
       u_numParticles = numParticles p,
       u_maxAge = maxAge p,
       viewportSphere = sphereOf (viewport fr),
       viewportSphereCenter = sphereCenterOf (viewport fr),
       viewportSphereRadius = sphereRadiusOf (viewport fr),
       viewportBounds = boundsOf (viewport fr),
       viewportSpeedFactor =
         speedFactorOf (exponentiate fr) (speedFactor p) (devicePixelRatio fr)
           (zoom (viewport fr)),
       time = timeline_getTime fr,
       seed = rnd \<rparr>"

section \<open>The GL context: buffers as a store\<close>

text \<open>
  The layer's state and its transform hold references to the same buffers, so buffers live
  in a store indexed by handle. A buffer's content is its list of 32-bit floats. Creating
  a buffer does not throw. An invalid GL call changes no buffer and records an error
  flag, as WebGL does. Whether the context can build a transform (transform feedback is
  available and the shader compiles) is a flag of the context.
\<close>

datatype js_error = TypeError | RangeError | Error

datatype gl_error = INVALID_VALUE | INVALID_OPERATION | UNALIGNED

record gl_context =
  buffers :: "nat \<rightharpoonup> real list"
  next_handle :: nat
  gl_errors :: "gl_error list"
  can_transform :: bool

definition new_Buffer :: "gl_context \<Rightarrow> real list \<Rightarrow> nat \<times> gl_context" where
  "new_Buffer g data =
     (next_handle g,
      g\<lparr>buffers := (buffers g)(next_handle g \<mapsto> data),
        next_handle := Suc (next_handle g)\<rparr>)"

definition Buffer_delete :: "gl_context \<Rightarrow> nat \<Rightarrow> gl_context" where
  "Buffer_delete g h =
     (case buffers g h of
        None \<Rightarrow> g
      | Some d \<Rightarrow> g\<lparr>buffers := (buffers g)(h := None)\<rparr>)"

definition gl_fail :: "gl_error \<Rightarrow> gl_context \<Rightarrow> gl_context" where
  "gl_fail e g = g\<lparr>gl_errors := e # gl_errors g\<rparr>"

text \<open>
  \<open>dst.copyData({sourceBuffer: src, readOffset, writeOffset, size})\<close>, offsets and size
  in bytes. A byte range that splits a float is outside this model of buffers as float
  lists and is flagged \<open>UNALIGNED\<close>; the layer only issues multiples of 4.
\<close>

definition copyData :: "gl_context \<Rightarrow> nat \<Rightarrow> nat \<Rightarrow> int \<Rightarrow> int \<Rightarrow> int \<Rightarrow> gl_context" where
  "copyData g dst src readOffset writeOffset size' =
     (case buffers g dst of
        None \<Rightarrow> gl_fail INVALID_OPERATION g
      | Some d \<Rightarrow>
          (case buffers g src of
             None \<Rightarrow> gl_fail INVALID_OPERATION g
           | Some s \<Rightarrow>
               if readOffset < 0 \<or> writeOffset < 0 \<or> size' < 0
                  \<or> 4 * int (length s) < readOffset + size'
                  \<or> 4 * int (length d) < writeOffset + size'
                  \<or> (dst = src \<and> readOffset < writeOffset + size'
                                \<and> writeOffset < readOffset + size')
               then gl_fail INVALID_VALUE g
               else if \<not> (4 dvd readOffset \<and> 4 dvd writeOffset \<and> 4 dvd size')
               then gl_fail UNALIGNED g
               else
                 let r = nat (readOffset div 4);
                     w = nat (writeOffset div 4);
                     n = nat (size' div 4)
                 in g\<lparr>buffers := (buffers g)(dst \<mapsto> take w d @ take n (drop r s) @ drop (w + n) d)\<rparr>))"

text \<open>\<open>buf.subData({data})\<close>: writes data at offset 0.\<close>

definition subData :: "gl_context \<Rightarrow> nat \<Rightarrow> real list \<Rightarrow> gl_context" where
  "subData g h data =
     (case buffers g h of
        None \<Rightarrow> gl_fail INVALID_OPERATION g
      | Some d \<Rightarrow>
          if length d < length data then gl_fail INVALID_VALUE g
          else g\<lparr>buffers := (buffers g)(h \<mapsto> data @ drop (length data) d)\<rparr>)"

section \<open>The transform\<close>

text \<open>
  The vertex shader particle-layer-update-transform.vs.glsl is not among the sources. It
  is a parameter: a kernel that, for each vertex, maps the uniforms, the vertex index and
  the vertex's source position to the target position written by transform feedback.
\<close>

type_synonym vec3 = "real \<times> real \<times> real"

type_synonym kernel = "uniforms \<Rightarrow> nat \<Rightarrow> vec3 \<Rightarrow> vec3"

record binding =
  sourcePosition :: nat  \<comment> \<open>sourceBuffers.sourcePosition\<close>
  targetPosition :: nat  \<comment> \<open>feedbackBuffers.targetPosition\<close>

record transform =
  vs :: kernel
  bindings :: "binding list"
  currentIndex :: nat
  elementCount :: nat

text \<open>
  A transform with a feedback map keeps two bindings, the second with the two buffers
  exchanged, and \<open>swap\<close> toggles the current one.
\<close>

definition new_Transform :: "kernel \<Rightarrow> nat \<Rightarrow> nat \<Rightarrow> nat \<Rightarrow> transform" where
  "new_Transform k src tgt n =
     \<lparr> vs = k,
       bindings = [\<lparr>sourcePosition = src, targetPosition = tgt\<rparr>,
                   \<lparr>sourcePosition = tgt, targetPosition = src\<rparr>],
       currentIndex = 0,
       elementCount = n \<rparr>"

text \<open>
  \<open>new Transform(gl, ...)\<close> throws when the context cannot build the transform;
  otherwise it is the transform above.
\<close>

definition create_Transform ::
    "gl_context \<Rightarrow> kernel \<Rightarrow> nat \<Rightarrow> nat \<Rightarrow> nat \<Rightarrow> js_error + transform" where
  "create_Transform g k src tgt n =
     (if can_transform g then Inr (new_Transform k src tgt n) else Inl Error)"

definition swap :: "transform \<Rightarrow> transform" where
  "swap t = t\<lparr>currentIndex := (currentIndex t + 1) mod 2\<rparr>"

definition vertexAt :: "real list \<Rightarrow> nat \<Rightarrow> vec3" where
  "vertexAt s i = (s ! (3 * i), s ! (3 * i + 1), s ! (3 * i + 2))"

definition vec3_floats :: "vec3 \<Rightarrow> real list" where
  "vec3_floats v = (case v of (x, y, z) \<Rightarrow> [x, y, z])"

definition feedback :: "kernel \<Rightarrow> uniforms \<Rightarrow> real list \<Rightarrow> nat \<Rightarrow> real list" where
  "feedback k u s n = concat (map (\<lambda>i. vec3_floats (k u i (vertexAt s i))) [0..<n])"

text \<open>
  \<open>transform.run({uniforms})\<close> on a binding: every vertex below elementCount reads its
  position from the source buffer and its output is written to the feedback buffer.
\<close>

definition Transform_run :: "gl_context \<Rightarrow> transform \<Rightarrow> binding \<Rightarrow> uniforms \<Rightarrow> gl_context" where
  "Transform_run g t b u =
     (case buffers g (sourcePosition b) of
        None \<Rightarrow> gl_fail INVALID_OPERATION g
      | Some s \<Rightarrow>
          (case buffers g (targetPosition b) of
             None \<Rightarrow> gl_fail INVALID_OPERATION g
           | Some d \<Rightarrow>
               if sourcePosition b = targetPosition b
                  \<or> length s < 3 * elementCount t \<or> length d < 3 * elementCount t
               then gl_fail INVALID_OPERATION g
               else g\<lparr>buffers := (buffers g)(targetPosition b \<mapsto>
                        feedback (vs t) u s (elementCount t) @ drop (3 * elementCount t) d)\<rparr>))"

section \<open>The layer\<close>

text \<open>
  \<open>this.state\<close>. A field that is undefined is \<open>None\<close>; the two counts are 0 until setup
  writes them (they are read only where an undefined buffer or transform has already
  thrown).
\<close>

record layer_state =
  initialized :: bool  \<comment> \<open>undefined counts as false\<close>
  numInstances :: nat
  numAgedInstances :: int
  sourcePositions :: "nat option"
  targetPositions :: "nat option"
  ages :: "nat option"
  transform :: "transform option"

text \<open>
  The world of one layer: its props and state, the GL context, the redraw flag, the
  ambient source behind Math.random() (a sequence of draws and the number of calls made),
  and the greatest length of typed array that the engine allocates.
\<close>

record world =
  props :: props
  state :: layer_state
  gl :: gl_context
  needsRedraw :: bool
  random_draws :: "nat \<Rightarrow> real"
  random_calls :: nat
  typed_array_limit :: nat

datatype outcome = Done world | Thrown js_error world

definition Math_random :: "world \<Rightarrow> real \<times> world" where
  "Math_random w = (random_draws w (random_calls w), w\<lparr>random_calls := Suc (random_calls w)\<rparr>)"

definition ages_data :: "nat \<Rightarrow> nat \<Rightarrow> real list" where
  "ages_data numParticles' maxAge' =
     concat (map (\<lambda>age. replicate numParticles' (real age)) [0..<maxAge'])"

text \<open>
  \<open>_deleteTransformFeedback\<close> (lines 251 to 270). Calling \<open>delete\<close> on an undefined field
  throws a TypeError; what was deleted before stays deleted. The final \<open>setState\<close> writes
  \<open>initialized: true\<close>, as the source does.
\<close>

definition deleteTransformFeedback :: "world \<Rightarrow> outcome" where
  "deleteTransformFeedback w =
     (if \<not> initialized (state w) then Done w
      else
        (case sourcePositions (state w) of
           None \<Rightarrow> Thrown TypeError w
         | Some sp \<Rightarrow>
             (let g1 = Buffer_delete (gl w) sp in
               (case targetPositions (state w) of
                  None \<Rightarrow> Thrown TypeError (w\<lparr>gl := g1\<rparr>)
                | Some tp \<Rightarrow>
                    (let g2 = Buffer_delete g1 tp in
                      (case ages (state w) of
                         None \<Rightarrow> Thrown TypeError (w\<lparr>gl := g2\<rparr>)
                       | Some ag \<Rightarrow>
                           (let g3 = Buffer_delete g2 ag in
                             (case transform (state w) of
                                None \<Rightarrow> Thrown TypeError (w\<lparr>gl := g3\<rparr>)
                              | Some t \<Rightarrow>
                                  Done (w\<lparr>gl := g3,
                                          state := (state w)\<lparr>initialized := True,
                                                             sourcePositions := None,
                                                             targetPositions := None,
                                                             ages := None,
                                                             transform := None\<rparr>\<rparr>)))))))))"

text \<open>
  The expressions of setup that can throw. \<open>new Float32Array(n)\<close> throws a RangeError
  when n is above the language's bound of 2^53 - 1 or above what the engine allocates, and
  is n zeros otherwise; \<open>new Float32Array(array)\<close> likewise, with the array's elements.
  \<open>new Array(len)\<close> throws a RangeError unless len is below 2^32. The age array of
  lines 160 to 162 makes one array of maxAge slots and, for each slot, one array of
  numParticles slots.
\<close>

definition float32_fits :: "nat \<Rightarrow> nat \<Rightarrow> bool" where
  "float32_fits limit n = (n \<le> limit \<and> n \<le> 2 ^ 53 - 1)"

definition new_Float32Array :: "nat \<Rightarrow> nat \<Rightarrow> js_error + real list" where
  "new_Float32Array limit n =
     (if float32_fits limit n then Inr (replicate n 0) else Inl RangeError)"

definition Float32Array_from :: "nat \<Rightarrow> real list \<Rightarrow> js_error + real list" where
  "Float32Array_from limit xs =
     (if float32_fits limit (length xs) then Inr xs else Inl RangeError)"

definition array_length_ok :: "nat \<Rightarrow> bool" where
  "array_length_ok len = (len < 2 ^ 32)"

definition ages_array :: "nat \<Rightarrow> nat \<Rightarrow> js_error + real list" where
  "ages_array numParticles' maxAge' =
     (if \<not> array_length_ok maxAge' then Inl RangeError
      else if 0 < maxAge' \<and> \<not> array_length_ok numParticles' then Inl RangeError
      else Inr (ages_data numParticles' maxAge'))"

text \<open>
  Lines 154 to 178 of \<open>_setupTransformFeedback\<close>: the two position buffers, the age
  buffer and the transform, created in this order. A throw leaves the GL context with the
  buffers created so far.
\<close>

definition createResources ::
    "kernel \<Rightarrow> nat \<Rightarrow> nat \<Rightarrow> nat \<Rightarrow> gl_context
      \<Rightarrow> (js_error \<times> gl_context) + ((nat \<times> nat \<times> nat \<times> transform) \<times> gl_context)" where
  "createResources updateTransformVs limit numParticles' maxAge' g =
     (let numInstances' = numParticles' * maxAge' in
      (case new_Float32Array limit (numInstances' * 3) of
         Inl e \<Rightarrow> Inl (e, g)
       | Inr zeros1 \<Rightarrow>
           (case new_Buffer g zeros1 of (sp, g1) \<Rightarrow>
             (case new_Float32Array limit (numInstances' * 3) of
                Inl e \<Rightarrow> Inl (e, g1)
              | Inr zeros2 \<Rightarrow>
                  (case new_Buffer g1 zeros2 of (tp, g2) \<Rightarrow>
                    (case ages_array numParticles' maxAge' of
                       Inl e \<Rightarrow> Inl (e, g2)
                     | Inr ageArray \<Rightarrow>
                         (case Float32Array_from limit ageArray of
                            Inl e \<Rightarrow> Inl (e, g2)
                          | Inr ageData \<Rightarrow>
                              (case new_Buffer g2 ageData of (ag, g3) \<Rightarrow>
                                (case create_Transform g3 updateTransformVs sp tp numInstances' of
                                   Inl e \<Rightarrow> Inl (e, g3)
                                 | Inr t \<Rightarrow> Inr ((sp, tp, ag, t), g3))))))))))"

text \<open>
  \<open>_setupTransformFeedback\<close> (lines 142 to 189): delete if initialized, then create the
  buffers and the transform, then \<open>setState\<close>. A throw while creating leaves the state
  as the deletion left it.
\<close>

definition setupTransformFeedback :: "kernel \<Rightarrow> world \<Rightarrow> outcome" where
  "setupTransformFeedback updateTransformVs w =
     (case (if initialized (state w) then deleteTransformFeedback w else Done w) of
        Thrown e w' \<Rightarrow> Thrown e w'
      | Done w1 \<Rightarrow>
          (case createResources updateTransformVs (typed_array_limit w)
                  (numParticles (props w)) (maxAge (props w)) (gl w1) of
             Inl (e, g) \<Rightarrow> Thrown e (w1\<lparr>gl := g\<rparr>)
           | Inr ((sp, tp, ag, t), g3) \<Rightarrow>
               Done (w1\<lparr>gl := g3,
                        state := (state w1)\<lparr>
                          initialized := True,
                          numInstances := numParticles (props w) * maxAge (props w),
                          numAgedInstances :=
                            int (numParticles (props w)) * (int (maxAge (props w)) - 1),
                          sourcePositions := Some sp,
                          targetPositions := Some tp,
                          ages := Some ag,
                          transform := Some t\<rparr>\<rparr>)))"

text \<open>
  \<open>_runTransformFeedback\<close> (lines 191 to 249): return if there is no image; copy the
  target buffer of the current binding into its source buffer, one band further on; run
  the transform with this frame's uniforms; swap.
\<close>

definition runTransformFeedback :: "frame \<Rightarrow> world \<Rightarrow> outcome" where
  "runTransformFeedback fr w =
     (case image_tex (props w) of
        None \<Rightarrow> Done w
      | Some img \<Rightarrow>
          (case transform (state w) of
             None \<Rightarrow> Thrown TypeError w
           | Some t \<Rightarrow>
               if length (bindings t) \<le> currentIndex t then Thrown TypeError w
               else
                 let b = bindings t ! currentIndex t;
                     g1 = copyData (gl w) (sourcePosition b) (targetPosition b) 0
                            (int (numParticles (props w)) * 4 * 3)
                            (numAgedInstances (state w) * 4 * 3);
                     (rnd, w1) = Math_random (w\<lparr>gl := g1\<rparr>);
                     u = frameUniforms (props w) fr img rnd;
                     g2 = Transform_run (gl w1) t b u
                 in Done (w1\<lparr>gl := g2, state := (state w1)\<lparr>transform := Some (swap t)\<rparr>\<rparr>)))"

definition setNeedsRedraw :: "world \<Rightarrow> world" where
  "setNeedsRedraw w = w\<lparr>needsRedraw := True\<rparr>"

text \<open>\<open>step\<close> (lines 272 to 276), \<open>draw\<close> (lines 122 to 140, without the rendering) and
  \<open>clear\<close> (lines 278 to 285).\<close>

definition step :: "frame \<Rightarrow> world \<Rightarrow> outcome" where
  "step fr w =
     (case runTransformFeedback fr w of
        Thrown e w' \<Rightarrow> Thrown e w'
      | Done w' \<Rightarrow> Done (setNeedsRedraw w'))"

definition draw :: "frame \<Rightarrow> world \<Rightarrow> outcome" where
  "draw fr w = (if animate (props w) then runTransformFeedback fr w else Done w)"

definition clear :: "world \<Rightarrow> outcome" where
  "clear w =
     (case sourcePositions (state w) of
        None \<Rightarrow> Thrown TypeError w
      | Some sp \<Rightarrow>
          (case new_Float32Array (typed_array_limit w) (numInstances (state w) * 3) of
             Inl e \<Rightarrow> Thrown e w
           | Inr zeros1 \<Rightarrow>
               (let g1 = subData (gl w) sp zeros1 in
                 (case targetPositions (state w) of
                    None \<Rightarrow> Thrown TypeError (w\<lparr>gl := g1\<rparr>)
                  | Some tp \<Rightarrow>
                      (case new_Float32Array (typed_array_limit w) (numInstances (state w) * 3) of
                         Inl e \<Rightarrow> Thrown e (w\<lparr>gl := g1\<rparr>)
                       | Inr zeros2 \<Rightarrow>
                           (let g2 = subData g1 tp zeros2
                            in Done (setNeedsRedraw (w\<lparr>gl := g2\<rparr>))))))))"

text \<open>
  The lifecycle hooks, as far as they touch the buffers: \<open>initializeState\<close> (line 81),
  \<open>updateState\<close> (lines 111 to 113) and \<open>finalizeState\<close> (line 117).
\<close>

definition initializeState :: "kernel \<Rightarrow> world \<Rightarrow> outcome" where
  "initializeState updateTransformVs w = setupTransformFeedback updateTransformVs w"

definition updateState :: "kernel \<Rightarrow> props \<Rightarrow> world \<Rightarrow> outcome" where
  "updateState updateTransformVs oldProps w =
     (if numParticles (props w) \<noteq> numParticles oldProps \<or> maxAge (props w) \<noteq> maxAge oldProps
      then setupTransformFeedback updateTransformVs w
      else Done w)"

definition finalizeState :: "world \<Rightarrow> outcome" where
  "finalizeState w = deleteTransformFeedback w"

section \<open>Reading an outcome\<close>

definition world_of :: "outcome \<Rightarrow> world" where
  "world_of r = (case r of Done w \<Rightarrow> w | Thrown e w \<Rightarrow> w)"


section \<open>Concrete inputs\<close>

text \<open>
  A kernel that moves every position by 1 in the first coordinate and by the seed in the
  second, a flat viewport whose center unprojects to the geographic center, and a layer
  with n particles and m ages in a fresh context, on an engine with the given typed-array
  limit. \<open>demo_ready\<close> is the layer of 1 particle and 2 ages after setup,
  \<open>demo_stepped\<close> after one more step, \<open>demo_torn_down\<close> after teardown, and
  \<open>demo_grown\<close> is \<open>demo_ready\<close> with props that ask for no particle and 2^32 ages.
\<close>

definition demo_kernel :: kernel where
  "demo_kernel u i v = (case v of (x, y, z) \<Rightarrow> (x + 1, y + seed u, z))"

definition demo_viewport :: viewport where
  "demo_viewport =
     \<lparr> resolution = None, longitude = 0, latitude = 0, width = 800, height = 600, zoom = 2,
       unproject = (\<lambda>p. ((fst p - 400) / 100, (300 - snd p) / 100)),
       getBounds = (- 10, - 90, 10, 90) \<rparr>"

definition demo_frame :: frame where
  "demo_frame =
     \<lparr> viewport = demo_viewport, devicePixelRatio = 2, timeline_getTime = 0,
       exponentiate = exact_pow \<rparr>"

definition demo_props :: "nat \<Rightarrow> nat \<Rightarrow> nat option \<Rightarrow> props" where
  "demo_props n m img =
     \<lparr> image_tex = img, bounds = (- 180, - 90, 180, 90), numParticles = n, maxAge = m,
       speedFactor = 1, animate = True \<rparr>"

definition blank_state :: layer_state where
  "blank_state =
     \<lparr> initialized = False, numInstances = 0, numAgedInstances = 0, sourcePositions = None,
       targetPositions = None, ages = None, transform = None \<rparr>"

definition fresh_gl :: gl_context where
  "fresh_gl =
     \<lparr> buffers = Map.empty, next_handle = 0, gl_errors = [], can_transform = True \<rparr>"

definition demo_world :: "nat \<Rightarrow> nat \<Rightarrow> nat option \<Rightarrow> nat \<Rightarrow> world" where
  "demo_world n m img limit =
     \<lparr> props = demo_props n m img, state = blank_state, gl = fresh_gl,
       needsRedraw = False, random_draws = (\<lambda>n. 1 / (real n + 2)), random_calls = 0,
       typed_array_limit = limit \<rparr>"

definition demo_ready :: world where
  "demo_ready = world_of (setupTransformFeedback demo_kernel (demo_world 1 2 (Some 7) 1000))"

definition demo_stepped :: world where
  "demo_stepped = world_of (step demo_frame demo_ready)"

definition demo_torn_down :: world where
  "demo_torn_down = world_of (deleteTransformFeedback demo_ready)"


section \<open>Allocated worlds and sequences of operations\<close>

text \<open>
  A world is allocated when the state names three distinct live buffers, the two position
  buffers have 3 * numInstances floats, the age buffer has the content written at setup,
  the transform's two bindings are these position buffers in both orders, the counts
  agree with the props, and a typed array of the position buffers' length is one the
  engine allocates (setup has allocated two).
\<close>

definition allocated :: "world \<Rightarrow> bool" where
  "allocated w =
     (case sourcePositions (state w) of None \<Rightarrow> False | Some sp \<Rightarrow>
      (case targetPositions (state w) of None \<Rightarrow> False | Some tp \<Rightarrow>
       (case ages (state w) of None \<Rightarrow> False | Some ag \<Rightarrow>
        (case transform (state w) of None \<Rightarrow> False | Some t \<Rightarrow>
           sp \<noteq> tp \<and> sp \<noteq> ag \<and> tp \<noteq> ag
           \<and> sp < next_handle (gl w) \<and> tp < next_handle (gl w) \<and> ag < next_handle (gl w)
           \<and> bindings t = [\<lparr>sourcePosition = sp, targetPosition = tp\<rparr>,
                           \<lparr>sourcePosition = tp, targetPosition = sp\<rparr>]
           \<and> currentIndex t < 2
           \<and> elementCount t = numInstances (state w)
           \<and> numInstances (state w) = numParticles (props w) * maxAge (props w)
           \<and> numAgedInstances (state w)
               = int (numParticles (props w)) * (int (maxAge (props w)) - 1)
           \<and> float32_fits (typed_array_limit w) (numInstances (state w) * 3)
           \<and> (case buffers (gl w) sp of None \<Rightarrow> False
               | Some a \<Rightarrow> length a = 3 * numInstances (state w))
           \<and> (case buffers (gl w) tp of None \<Rightarrow> False
               | Some b \<Rightarrow> length b = 3 * numInstances (state w))
           \<and> buffers (gl w) ag
               = Some (ages_data (numParticles (props w)) (maxAge (props w)))))))"

text \<open>Age band a of a position buffer with n particles: 3 n floats from offset a * 3 n.\<close>

definition band :: "nat \<Rightarrow> nat \<Rightarrow> real list \<Rightarrow> real list" where
  "band n a xs = take (3 * n) (drop (a * (3 * n)) xs)"

text \<open>
  What the host can do to a layer between setup and teardown: step, draw, clear, and
  change the props, which calls \<open>updateState\<close> with the old props.
\<close>

datatype layer_op = Step frame | Draw frame | Clear | SetProps props

definition apply_op :: "kernel \<Rightarrow> layer_op \<Rightarrow> world \<Rightarrow> outcome" where
  "apply_op k operation w =
     (case operation of
        Step fr \<Rightarrow> step fr w
      | Draw fr \<Rightarrow> draw fr w
      | Clear \<Rightarrow> clear w
      | SetProps p \<Rightarrow> updateState k (props w) (w\<lparr>props := p\<rparr>))"

fun apply_ops :: "kernel \<Rightarrow> layer_op list \<Rightarrow> world \<Rightarrow> outcome" where
  "apply_ops k [] w = Done w"
| "apply_ops k (operation # rest) w =
     (case apply_op k operation w of
        Thrown e w' \<Rightarrow> Thrown e w'
      | Done w' \<Rightarrow> apply_ops k rest w')"

definition same_grid :: "props \<Rightarrow> layer_op \<Rightarrow> bool" where
  "same_grid p operation =
     (case operation of
        SetProps p' \<Rightarrow> numParticles p' = numParticles p \<and> maxAge p' = maxAge p
      | _ \<Rightarrow> True)"

section \<open>Bounds on pi\<close>

lemma sin_taylor5:
  fixes x :: real
  shows "\<bar>sin x - (x - x ^ 3 / 6)\<bar> \<le> \<bar>x\<bar> ^ 5 / 120"
proof -
  have "\<bar>sin x - (\<Sum>m<5. sin_coeff m * x ^ m)\<bar> \<le> inverse (fact 5) * \<bar>x\<bar> ^ 5"
    by (rule Maclaurin_sin_bound)
  moreover have "(\<Sum>m<5. sin_coeff m * x ^ m) = x - x ^ 3 / 6"
    by (simp add: sin_coeff_def lessThan_nat_numeral fact_numeral)
  moreover have "inverse (fact 5) * \<bar>x\<bar> ^ 5 = \<bar>x\<bar> ^ 5 / 120"
    by (simp add: fact_numeral)
  ultimately show ?thesis by simp
qed

lemma sin_below_half: "sin (5184 / 10000 :: real) < 1 / 2"
proof -
  have "(5184 / 10000 :: real) - (5184 / 10000) ^ 3 / 6 + \<bar>5184 / 10000 :: real\<bar> ^ 5 / 120 < 1 / 2"
    by (simp add: power_divide)
  then show ?thesis
    using sin_taylor5 [of "5184 / 10000"] by linarith
qed

lemma sin_above_half: "1 / 2 < sin (5288 / 10000 :: real)"
proof -
  have "1 / 2 < (5288 / 10000 :: real) - (5288 / 10000) ^ 3 / 6 - \<bar>5288 / 10000 :: real\<bar> ^ 5 / 120"
    by (simp add: power_divide)
  then show ?thesis
    using sin_taylor5 [of "5288 / 10000"] by linarith
qed

lemma pi_lower: "31104 / 10000 < pi"
proof -
  have "sin (5184 / 10000 :: real) < sin (pi / 6)"
    using sin_below_half by (simp add: sin_30)
  moreover have "- (pi / 2) \<le> 5184 / 10000" "5184 / 10000 \<le> pi / 2"
      "- (pi / 2) \<le> pi / 6" "pi / 6 \<le> pi / 2"
    using pi_ge_two by simp_all
  ultimately have "5184 / 10000 < pi / 6"
    by (simp add: sin_mono_less_eq)
  then show ?thesis by simp
qed

lemma pi_upper: "pi < 31728 / 10000"
proof -
  have "sin (pi / 6) < sin (5288 / 10000 :: real)"
    using sin_above_half by (simp add: sin_30)
  moreover have "- (pi / 2) \<le> 5288 / 10000" "5288 / 10000 \<le> pi / 2"
      "- (pi / 2) \<le> pi / 6" "pi / 6 \<le> pi / 2"
    using pi_ge_two by simp_all
  ultimately have "pi / 6 < 5288 / 10000"
    by (simp add: sin_mono_less_eq)
  then show ?thesis by simp
qed

section \<open>Geodesy\<close>

lemma distanceTo_spec:
  "distanceTo from point =
     haversine_spec (radians (snd from)) (radians (fst from))
                    (radians (snd point)) (radians (fst point))"
  by (simp add: distanceTo_def haversine_spec_def radians_def EARTH_RADIUS_def Let_def
      power2_eq_square mult.assoc)

lemma distanceTo_same: "distanceTo P P = 0"
  by (simp add: distanceTo_def atan2_def)

lemma distanceTo_one_degree: "distanceTo (0, 0) (0, 1) = EARTH_RADIUS * pi / 180"
proof -
  let ?h = "pi / 360"
  have h: "0 < ?h" "?h < pi / 2" by simp_all
  have s: "0 < sin ?h" using h by (intro sin_gt_zero2)
  have c: "0 < cos ?h" using h by (intro cos_gt_zero)
  have a: "1 - sin ?h * sin ?h = cos ?h * cos ?h"
    using sin_cos_squared_add3 [of ?h] by (simp add: algebra_simps)
  have "atan2 (sqrt (sin ?h * sin ?h)) (sqrt (1 - sin ?h * sin ?h)) = arctan (tan ?h)"
    using s c unfolding a by (simp add: atan2_def tan_def)
  also have "\<dots> = ?h" using h by (intro arctan_tan) simp_all
  finally show ?thesis
    by (simp add: distanceTo_def Let_def)
qed

text \<open>
  C8. \<open>distanceTo\<close> is the haversine formula with R = 6,370,972 m on the coordinates
  converted to radians; the distance from a point to itself is 0; and the distance from
  [0, 0] to [0, 1] (one degree of latitude) is within 1% of 111,195 m. Numbers are real
  numbers here, so the statement is about the formula without rounding.
\<close>

theorem distanceTo_haversine:
  "distanceTo from point =
     haversine_spec (radians (snd from)) (radians (fst from))
                    (radians (snd point)) (radians (fst point))
   \<and> distanceTo P P = 0
   \<and> \<bar>distanceTo (0, 0) (0, 1) - 111195\<bar> \<le> 111195 / 100"
proof -
  have "\<bar>EARTH_RADIUS * pi / 180 - 111195\<bar> \<le> 111195 / 100"
    unfolding EARTH_RADIUS_def using pi_lower pi_upper by linarith
  then show ?thesis
    by (simp only: distanceTo_spec [symmetric] distanceTo_same distanceTo_one_degree simp_thms)
qed

section \<open>The speed scale in doubles\<close>

























section \<open>The sphere radius\<close>

lemma distanceTo_spec_distance: "distanceTo c q = spec_distance c q"
  by (simp only: spec_distance_def distanceTo_spec)

text \<open>The distance from [0, 0] in terms of the half angles of the other point.\<close>

lemma distanceTo_origin:
  assumes "lat * pi / 360 = x" and "lon * pi / 360 = y"
  shows "distanceTo (0, 0) (lon, lat) =
           EARTH_RADIUS * (2 * atan2 (sqrt ((sin x)\<^sup>2 + cos (2 * x) * (sin y)\<^sup>2))
                                   (sqrt (1 - ((sin x)\<^sup>2 + cos (2 * x) * (sin y)\<^sup>2))))"
proof -
  have "lat * pi / 180 / 2 = x" "lon * pi / 180 / 2 = y" "lat * pi / 180 = 2 * x"
    using assms by simp_all
  then show ?thesis
    by (simp add: distanceTo_def Let_def power2_eq_square mult.assoc)
qed

lemma haversine_angle_mono:
  assumes "0 \<le> a" and "a < b" and "b < 1"
  shows "atan2 (sqrt a) (sqrt (1 - a)) < atan2 (sqrt b) (sqrt (1 - b))"
proof -
  have pos: "0 < sqrt (1 - a)" "0 < sqrt (1 - b)" using assms by simp_all
  have "sqrt a / sqrt (1 - a) < sqrt b / sqrt (1 - b)"
    using assms pos by (intro frac_less) simp_all
  then have "arctan (sqrt a / sqrt (1 - a)) < arctan (sqrt b / sqrt (1 - b))"
    by (simp only: arctan_less_iff)
  then show ?thesis using pos by (simp add: atan2_def)
qed

lemma corner_haversine:
  assumes x: "0 < x" "x < pi / 4" and y: "0 < y" "y < pi / 4"
  shows "(sin x)\<^sup>2 < (sin x)\<^sup>2 + cos (2 * x) * (sin y)\<^sup>2"
    and "(sin y)\<^sup>2 < (sin x)\<^sup>2 + cos (2 * x) * (sin y)\<^sup>2"
    and "(sin x)\<^sup>2 + cos (2 * x) * (sin y)\<^sup>2 < 1"
proof -
  have sx: "0 < sin x" using x by (intro sin_gt_zero2) simp_all
  have sy: "0 < sin y" using y by (intro sin_gt_zero2) simp_all
  have cx: "0 < cos x" using x by (intro cos_gt_zero) simp_all
  have cy: "0 < cos y" using y by (intro cos_gt_zero) simp_all
  have c2x: "0 < cos (2 * x)" using x by (intro cos_gt_zero) simp_all
  have c2y: "0 < cos (2 * y)" using y by (intro cos_gt_zero) simp_all
  show "(sin x)\<^sup>2 < (sin x)\<^sup>2 + cos (2 * x) * (sin y)\<^sup>2"
    using c2x sy by simp
  have cd: "cos (2 * x) = 1 - 2 * (sin x)\<^sup>2" "cos (2 * y) = 1 - 2 * (sin y)\<^sup>2"
    by (simp_all add: cos_double_sin)
  have "(sin x)\<^sup>2 + cos (2 * x) * (sin y)\<^sup>2 - (sin y)\<^sup>2 = (sin x)\<^sup>2 * cos (2 * y)"
    unfolding cd by (simp add: algebra_simps)
  moreover have "0 < (sin x)\<^sup>2 * cos (2 * y)" using sx c2y by simp
  ultimately show "(sin y)\<^sup>2 < (sin x)\<^sup>2 + cos (2 * x) * (sin y)\<^sup>2" by linarith
  have "1 - ((sin x)\<^sup>2 + cos (2 * x) * (sin y)\<^sup>2) = (cos x)\<^sup>2 * (cos y)\<^sup>2 + (sin x)\<^sup>2 * (sin y)\<^sup>2"
  proof -
    have c2: "(cos x)\<^sup>2 = 1 - (sin x)\<^sup>2" "(cos y)\<^sup>2 = 1 - (sin y)\<^sup>2"
      by (simp_all add: cos_squared_eq)
    show ?thesis unfolding cd c2 by (simp add: algebra_simps)
  qed
  moreover have "0 < (cos x)\<^sup>2 * (cos y)\<^sup>2 + (sin x)\<^sup>2 * (sin y)\<^sup>2"
    using cx cy sx sy by (intro add_pos_pos mult_pos_pos) simp_all
  ultimately show "(sin x)\<^sup>2 + cos (2 * x) * (sin y)\<^sup>2 < 1" by linarith
qed


lemma demo_probe_distances:
  fixes A :: real
  defines "A \<equiv> (sin (pi / 120))\<^sup>2 + cos (2 * (pi / 120)) * (sin (pi / 90))\<^sup>2"
  shows "distanceTo (0, 0) (- 4, 3) = EARTH_RADIUS * (2 * atan2 (sqrt A) (sqrt (1 - A)))"
    and "distanceTo (0, 0) (0, 3) < distanceTo (0, 0) (- 4, 3)"
    and "distanceTo (0, 0) (- 4, 0) < distanceTo (0, 0) (- 4, 3)"
    and "distanceTo (0, 0) (4, 0) = distanceTo (0, 0) (- 4, 0)"
    and "distanceTo (0, 0) (0, - 3) = distanceTo (0, 0) (0, 3)"
    and "0 < distanceTo (0, 0) (- 4, 3)"
proof -
  let ?D = "\<lambda>a. EARTH_RADIUS * (2 * atan2 (sqrt a) (sqrt (1 - a)))"
  have r: "0 < pi / 120" "pi / 120 < pi / 4" "0 < pi / 90" "pi / 90 < pi / 4"
    by simp_all
  note c = corner_haversine [OF r, folded A_def]
  have mono: "?D a < ?D b" if "0 \<le> a" "a < b" "b < 1" for a b
    using haversine_angle_mono [OF that] by (simp add: EARTH_RADIUS_def)
  have d1: "distanceTo (0, 0) (- 4, 3) = ?D A"
    using distanceTo_origin [of 3 "pi / 120" "- 4" "- (pi / 90)"] by (simp add: A_def)
  have d2: "distanceTo (0, 0) (0, 3) = ?D ((sin (pi / 120))\<^sup>2)"
    using distanceTo_origin [of 3 "pi / 120" 0 0] by simp
  have d3: "distanceTo (0, 0) (- 4, 0) = ?D ((sin (pi / 90))\<^sup>2)"
    using distanceTo_origin [of 0 0 "- 4" "- (pi / 90)"] by simp
  have d4: "distanceTo (0, 0) (4, 0) = ?D ((sin (pi / 90))\<^sup>2)"
    using distanceTo_origin [of 0 0 4 "pi / 90"] by simp
  have d5: "distanceTo (0, 0) (0, - 3) = ?D ((sin (pi / 120))\<^sup>2)"
    using distanceTo_origin [of "- 3" "- (pi / 120)" 0 0] by simp
  show "distanceTo (0, 0) (- 4, 3) = ?D A" by (rule d1)
  show "distanceTo (0, 0) (0, 3) < distanceTo (0, 0) (- 4, 3)"
    unfolding d1 d2 using c(1,3) by (intro mono) simp_all
  show "distanceTo (0, 0) (- 4, 0) < distanceTo (0, 0) (- 4, 3)"
    unfolding d1 d3 using c(2,3) by (intro mono) simp_all
  show "distanceTo (0, 0) (4, 0) = distanceTo (0, 0) (- 4, 0)" by (simp only: d3 d4)
  show "distanceTo (0, 0) (0, - 3) = distanceTo (0, 0) (0, 3)" by (simp only: d2 d5)
  have "0 < A" using c(1) zero_le_power2 [of "sin (pi / 120)"] by linarith
  then have "?D 0 < ?D A" using c(3) by (intro mono) simp_all
  then show "0 < distanceTo (0, 0) (- 4, 3)" by (simp add: d1 atan2_def)
qed

text \<open>
  C9. The radius passed to the kernel is the greatest of the three haversine distances,
  by the specification's formula, from the viewport's geographic center to the
  unprojections of the screen points [0, 0], [width / 2, 0] and [0, height / 2]. The
  first probe is the origin of screen coordinates, not the center of the canvas.
\<close>

theorem sphere_radius_probes_from_origin:
  "viewportSphereRadius (frameUniforms p fr img rnd) =
     spec_probe_radius (viewport fr) (0, 0) (width (viewport fr) / 2, 0)
       (0, height (viewport fr) / 2)"
  by (simp add: frameUniforms_def sphereRadiusOf_def sphereCenterOf_def spec_probe_radius_def
      distanceTo_spec_distance max.commute max.left_commute)

text \<open>
  C9, as worded, fails. In the viewport of 800 by 600 pixels whose canvas center
  [400, 300] unprojects to its geographic center, the coded radius is the distance to the
  unprojection of the corner [0, 0]. It is greater than the greatest distance over the
  canvas center and the points half a width and half a height away from it, and greater
  than the greatest distance over the canvas center, [width / 2, 0] and [0, height / 2].
\<close>

theorem sphere_radius_exceeds_center_probes:
  "unproject demo_viewport (width demo_viewport / 2, height demo_viewport / 2)
     = (longitude demo_viewport, latitude demo_viewport)
   \<and> spec_probe_radius demo_viewport
         (width demo_viewport / 2, height demo_viewport / 2)
         (width demo_viewport / 2 + width demo_viewport / 2, height demo_viewport / 2)
         (width demo_viewport / 2, height demo_viewport / 2 + height demo_viewport / 2)
       < viewportSphereRadius (frameUniforms (demo_props 1 2 (Some 7)) demo_frame 7 0)
   \<and> spec_probe_radius demo_viewport
         (width demo_viewport / 2, height demo_viewport / 2)
         (width demo_viewport / 2, 0)
         (0, height demo_viewport / 2)
       < viewportSphereRadius (frameUniforms (demo_props 1 2 (Some 7)) demo_frame 7 0)"
proof -
  note d = demo_probe_distances
  have r: "viewportSphereRadius (frameUniforms (demo_props 1 2 (Some 7)) demo_frame 7 0)
      = distanceTo (0, 0) (- 4, 3)"
    using d(2,3)
    by (simp add: frameUniforms_def demo_frame_def sphereRadiusOf_def sphereCenterOf_def
        demo_viewport_def)
  have a: "spec_probe_radius demo_viewport
         (width demo_viewport / 2, height demo_viewport / 2)
         (width demo_viewport / 2 + width demo_viewport / 2, height demo_viewport / 2)
         (width demo_viewport / 2, height demo_viewport / 2 + height demo_viewport / 2)
       = max 0 (max (distanceTo (0, 0) (- 4, 0)) (distanceTo (0, 0) (0, 3)))"
    by (simp add: spec_probe_radius_def distanceTo_spec_distance [symmetric] demo_viewport_def
        distanceTo_same d(4,5))
  have b: "spec_probe_radius demo_viewport
         (width demo_viewport / 2, height demo_viewport / 2)
         (width demo_viewport / 2, 0)
         (0, height demo_viewport / 2)
       = max 0 (max (distanceTo (0, 0) (0, 3)) (distanceTo (0, 0) (- 4, 0)))"
    by (simp add: spec_probe_radius_def distanceTo_spec_distance [symmetric] demo_viewport_def
        distanceTo_same)
  show ?thesis
    unfolding r a b using d(2,3,6) by (simp add: demo_viewport_def)
qed

section \<open>A frame without a velocity field\<close>

text \<open>
  C3. With no image bound, the per-frame pass returns at once: \<open>runTransformFeedback\<close>
  and \<open>draw\<close> leave the whole world as it was, and \<open>step\<close> only sets the redraw flag; so
  every buffer of the GL context and the layer's state are unchanged, and nothing is
  thrown.
\<close>

theorem step_without_image_is_noop:
  assumes "image_tex (props w) = None"
  shows "runTransformFeedback fr w = Done w
       \<and> draw fr w = Done w
       \<and> step fr w = Done (w\<lparr>needsRedraw := True\<rparr>)
       \<and> buffers (gl (world_of (step fr w))) = buffers (gl w)
       \<and> state (world_of (step fr w)) = state w"
  using assms
  by (simp add: runTransformFeedback_def draw_def step_def setNeedsRedraw_def world_of_def)

theorem step_without_image_is_noop_witness:
  "image_tex (props (demo_world 2 2 None 100)) = None
   \<and> step demo_frame (demo_world 2 2 None 100) = Done ((demo_world 2 2 None 100)\<lparr>needsRedraw := True\<rparr>)"
  using step_without_image_is_noop [of "demo_world 2 2 None 100" demo_frame]
  by (simp add: demo_world_def demo_props_def)

section \<open>Buffers under the GL operations\<close>

lemma length_feedback: "length (feedback k u s n) = 3 * n"
  by (induction n) (simp_all add: feedback_def vec3_floats_def split: prod.splits)

lemma aligned_range:
  "0 \<le> off \<Longrightarrow> 0 \<le> sz \<Longrightarrow> off + sz \<le> 4 * int len \<Longrightarrow> 4 dvd off \<Longrightarrow> 4 dvd sz
   \<Longrightarrow> nat (off div 4) + nat (sz div 4) \<le> len"
  by (elim dvdE) auto

lemma splice_length:
  "w + n \<le> length d \<Longrightarrow> r + n \<le> length s
   \<Longrightarrow> length (take w d @ take n (drop r s) @ drop (w + n) d) = length d"
  by simp

lemma copyData_aligned:
  assumes "buffers g dst = Some d" and "buffers g src = Some s" and "dst \<noteq> src"
    and "r + n \<le> length s" and "w + n \<le> length d"
  shows "copyData g dst src (4 * int r) (4 * int w) (4 * int n) =
           g\<lparr>buffers := (buffers g)(dst \<mapsto> take w d @ take n (drop r s) @ drop (w + n) d)\<rparr>"
  using assms by (simp add: copyData_def Let_def)

lemma copyData_other: "h \<noteq> dst \<Longrightarrow> buffers (copyData g dst src r w n) h = buffers g h"
  by (simp add: copyData_def gl_fail_def Let_def split: option.splits)

lemma copyData_next: "next_handle (copyData g dst src r w n) = next_handle g"
  by (simp add: copyData_def gl_fail_def Let_def split: option.splits)

lemma copyData_length:
  assumes d: "buffers g dst = Some d"
  shows "\<exists>d'. buffers (copyData g dst src r w n) dst = Some d' \<and> length d' = length d"
proof (cases "buffers g src")
  case None
  then show ?thesis using d by (simp add: copyData_def gl_fail_def)
next
  case (Some s)
  show ?thesis
  proof (cases "r < 0 \<or> w < 0 \<or> n < 0 \<or> 4 * int (length s) < r + n
                  \<or> 4 * int (length d) < w + n
                  \<or> (dst = src \<and> r < w + n \<and> w < r + n)
                  \<or> \<not> (4 dvd r \<and> 4 dvd w \<and> 4 dvd n)")
    case True
    then show ?thesis using d Some
      by (auto simp add: copyData_def gl_fail_def)
  next
    case False
    then have "nat (w div 4) + nat (n div 4) \<le> length d"
        "nat (r div 4) + nat (n div 4) \<le> length s"
      by (auto intro: aligned_range)
    then have "length (take (nat (w div 4)) d @ take (nat (n div 4)) (drop (nat (r div 4)) s)
                 @ drop (nat (w div 4) + nat (n div 4)) d) = length d"
      by (rule splice_length)
    moreover have "buffers (copyData g dst src r w n) dst =
        Some (take (nat (w div 4)) d @ take (nat (n div 4)) (drop (nat (r div 4)) s)
                 @ drop (nat (w div 4) + nat (n div 4)) d)"
      using d Some False by (auto simp add: copyData_def Let_def)
    ultimately show ?thesis by blast
  qed
qed

lemma subData_other: "h \<noteq> b \<Longrightarrow> buffers (subData g b data) h = buffers g h"
  by (simp add: subData_def gl_fail_def split: option.splits)

lemma subData_next: "next_handle (subData g b data) = next_handle g"
  by (simp add: subData_def gl_fail_def split: option.splits)

lemma subData_length:
  "buffers g b = Some d \<Longrightarrow>
     \<exists>d'. buffers (subData g b data) b = Some d' \<and> length d' = length d"
  by (auto simp add: subData_def gl_fail_def split: option.splits)

lemma Transform_run_other:
  "h \<noteq> targetPosition b \<Longrightarrow> buffers (Transform_run g t b u) h = buffers g h"
  by (simp add: Transform_run_def gl_fail_def split: option.splits)

lemma Transform_run_next: "next_handle (Transform_run g t b u) = next_handle g"
  by (simp add: Transform_run_def gl_fail_def split: option.splits)

lemma Transform_run_length:
  "buffers g (targetPosition b) = Some d \<Longrightarrow>
     \<exists>d'. buffers (Transform_run g t b u) (targetPosition b) = Some d' \<and> length d' = length d"
  by (auto simp add: Transform_run_def gl_fail_def length_feedback split: option.splits)


lemma allocatedE:
  assumes "allocated w"
  obtains sp tp ag t a b where
    "sourcePositions (state w) = Some sp" "targetPositions (state w) = Some tp"
    "ages (state w) = Some ag" "transform (state w) = Some t"
    "sp \<noteq> tp" "sp \<noteq> ag" "tp \<noteq> ag"
    "sp < next_handle (gl w)" "tp < next_handle (gl w)" "ag < next_handle (gl w)"
    "bindings t = [\<lparr>sourcePosition = sp, targetPosition = tp\<rparr>,
                   \<lparr>sourcePosition = tp, targetPosition = sp\<rparr>]"
    "currentIndex t < 2" "elementCount t = numInstances (state w)"
    "numInstances (state w) = numParticles (props w) * maxAge (props w)"
    "numAgedInstances (state w) = int (numParticles (props w)) * (int (maxAge (props w)) - 1)"
    "buffers (gl w) sp = Some a" "length a = 3 * numInstances (state w)"
    "buffers (gl w) tp = Some b" "length b = 3 * numInstances (state w)"
    "buffers (gl w) ag = Some (ages_data (numParticles (props w)) (maxAge (props w)))"
    "float32_fits (typed_array_limit w) (numInstances (state w) * 3)"
  using assms unfolding allocated_def by (auto split: option.splits)

lemma allocatedI:
  assumes "sourcePositions (state w) = Some sp" "targetPositions (state w) = Some tp"
    "ages (state w) = Some ag" "transform (state w) = Some t"
    "sp \<noteq> tp" "sp \<noteq> ag" "tp \<noteq> ag"
    "sp < next_handle (gl w)" "tp < next_handle (gl w)" "ag < next_handle (gl w)"
    "bindings t = [\<lparr>sourcePosition = sp, targetPosition = tp\<rparr>,
                   \<lparr>sourcePosition = tp, targetPosition = sp\<rparr>]"
    "currentIndex t < 2" "elementCount t = numInstances (state w)"
    "numInstances (state w) = numParticles (props w) * maxAge (props w)"
    "numAgedInstances (state w) = int (numParticles (props w)) * (int (maxAge (props w)) - 1)"
    "buffers (gl w) sp = Some a" "length a = 3 * numInstances (state w)"
    "buffers (gl w) tp = Some b" "length b = 3 * numInstances (state w)"
    "buffers (gl w) ag = Some (ages_data (numParticles (props w)) (maxAge (props w)))"
    "float32_fits (typed_array_limit w) (numInstances (state w) * 3)"
  shows "allocated w"
  using assms unfolding allocated_def by simp

text \<open>A world that differs from an allocated one only in ways that keep it allocated.\<close>

lemma allocated_frame:
  assumes w: "allocated w"
    and grid: "numParticles (props w') = numParticles (props w)" "maxAge (props w') = maxAge (props w)"
    and st: "sourcePositions (state w') = sourcePositions (state w)"
      "targetPositions (state w') = targetPositions (state w)"
      "ages (state w') = ages (state w)"
      "numInstances (state w') = numInstances (state w)"
      "numAgedInstances (state w') = numAgedInstances (state w)"
    and tr: "\<And>t. transform (state w) = Some t \<Longrightarrow>
        \<exists>t'. transform (state w') = Some t' \<and> bindings t' = bindings t
           \<and> currentIndex t' < 2 \<and> elementCount t' = elementCount t"
    and nh: "next_handle (gl w') = next_handle (gl w)"
    and lim: "typed_array_limit w' = typed_array_limit w"
    and len: "\<And>h d. buffers (gl w) h = Some d \<Longrightarrow>
        \<exists>d'. buffers (gl w') h = Some d' \<and> length d' = length d"
    and ag: "\<And>h. ages (state w) = Some h \<Longrightarrow> buffers (gl w') h = buffers (gl w) h"
  shows "allocated w'"
proof -
  from w obtain sp tp ag t a b where f:
    "sourcePositions (state w) = Some sp" "targetPositions (state w) = Some tp"
    "ages (state w) = Some ag" "transform (state w) = Some t"
    "sp \<noteq> tp" "sp \<noteq> ag" "tp \<noteq> ag"
    "sp < next_handle (gl w)" "tp < next_handle (gl w)" "ag < next_handle (gl w)"
    "bindings t = [\<lparr>sourcePosition = sp, targetPosition = tp\<rparr>,
                   \<lparr>sourcePosition = tp, targetPosition = sp\<rparr>]"
    "currentIndex t < 2" "elementCount t = numInstances (state w)"
    "numInstances (state w) = numParticles (props w) * maxAge (props w)"
    "numAgedInstances (state w) = int (numParticles (props w)) * (int (maxAge (props w)) - 1)"
    "buffers (gl w) sp = Some a" "length a = 3 * numInstances (state w)"
    "buffers (gl w) tp = Some b" "length b = 3 * numInstances (state w)"
    "buffers (gl w) ag = Some (ages_data (numParticles (props w)) (maxAge (props w)))"
    "float32_fits (typed_array_limit w) (numInstances (state w) * 3)"
    by (rule allocatedE)
  from tr [OF f(4)] obtain t' where t':
    "transform (state w') = Some t'" "bindings t' = bindings t"
    "currentIndex t' < 2" "elementCount t' = elementCount t" by blast
  from len [OF f(16)] obtain a' where a': "buffers (gl w') sp = Some a'" "length a' = length a"
    by blast
  from len [OF f(18)] obtain b' where b': "buffers (gl w') tp = Some b'" "length b' = length b"
    by blast
  show ?thesis
    by (rule allocatedI [where sp = sp and tp = tp and ag = ag and t = t' and a = a' and b = b'])
       (simp_all add: f t' a' b' grid st nh ag lim f(21) [unfolded f(14)])
qed

lemma run_bound:
  assumes "image_tex (props w) = Some img" and "transform (state w) = Some t"
    and "currentIndex t < length (bindings t)"
  shows "\<exists>w'. runTransformFeedback fr w = Done w'
      \<and> props w' = props w
      \<and> gl w' = Transform_run
            (copyData (gl w) (sourcePosition (bindings t ! currentIndex t))
               (targetPosition (bindings t ! currentIndex t)) 0
               (int (numParticles (props w)) * 4 * 3) (numAgedInstances (state w) * 4 * 3))
            t (bindings t ! currentIndex t)
            (frameUniforms (props w) fr img (random_draws w (random_calls w)))
      \<and> state w' = (state w)\<lparr>transform := Some (swap t)\<rparr>
      \<and> random_calls w' = Suc (random_calls w)
      \<and> random_draws w' = random_draws w
      \<and> needsRedraw w' = needsRedraw w
      \<and> typed_array_limit w' = typed_array_limit w"
  using assms by (simp add: runTransformFeedback_def Math_random_def Let_def)

lemma run_cases:
  "runTransformFeedback fr w = Done w' \<Longrightarrow>
     w' = w \<or> (\<exists>img t. image_tex (props w) = Some img \<and> transform (state w) = Some t
                 \<and> currentIndex t < length (bindings t))"
  by (auto simp add: runTransformFeedback_def split: option.splits if_splits)

lemma allocated_run:
  assumes w: "allocated w" and r: "runTransformFeedback fr w = Done w'"
  shows "allocated w' \<and> props w' = props w"
proof -
  from run_cases [OF r] show ?thesis
  proof
    assume "w' = w" then show ?thesis using w by simp
  next
    assume "\<exists>img t. image_tex (props w) = Some img \<and> transform (state w) = Some t
                 \<and> currentIndex t < length (bindings t)"
    then obtain img t where it: "image_tex (props w) = Some img" "transform (state w) = Some t"
      "currentIndex t < length (bindings t)" by blast
    define b where "b = bindings t ! currentIndex t"
    define g1 where "g1 = copyData (gl w) (sourcePosition b) (targetPosition b) 0
               (int (numParticles (props w)) * 4 * 3) (numAgedInstances (state w) * 4 * 3)"
    define u where "u = frameUniforms (props w) fr img (random_draws w (random_calls w))"
    from run_bound [OF it, of fr] r have w': "props w' = props w"
      "gl w' = Transform_run g1 t b u" "state w' = (state w)\<lparr>transform := Some (swap t)\<rparr>"
      "typed_array_limit w' = typed_array_limit w"
      by (simp_all add: b_def g1_def u_def)
    from w obtain sp tp ag where f: "ages (state w) = Some ag"
      "bindings t = [\<lparr>sourcePosition = sp, targetPosition = tp\<rparr>,
                     \<lparr>sourcePosition = tp, targetPosition = sp\<rparr>]"
      "sp \<noteq> tp" "sp \<noteq> ag" "tp \<noteq> ag" "currentIndex t < 2"
      using it(2) by (auto elim!: allocatedE)
    have b: "sourcePosition b \<noteq> targetPosition b" "sourcePosition b \<noteq> ag" "targetPosition b \<noteq> ag"
      using f less_2_cases [OF f(6)] by (auto simp add: b_def)
    have len: "\<exists>d'. buffers (gl w') h = Some d' \<and> length d' = length d"
      if "buffers (gl w) h = Some d" for h d
    proof (cases "h = targetPosition b")
      case True
      then have "buffers g1 h = Some d" using that b by (simp add: g1_def copyData_other)
      then show ?thesis using True Transform_run_length [of g1 b d t u] by (simp add: w')
    next
      case False
      then have "buffers (gl w') h = buffers g1 h" by (simp add: w' Transform_run_other)
      moreover have "\<exists>d'. buffers g1 h = Some d' \<and> length d' = length d"
      proof (cases "h = sourcePosition b")
        case True
        then show ?thesis using that copyData_length [of "gl w" h d] by (simp add: g1_def)
      next
        case False
        then show ?thesis using that by (simp add: g1_def copyData_other)
      qed
      ultimately show ?thesis by simp
    qed
    have "allocated w'"
    proof (rule allocated_frame [OF w])
      show "\<exists>t'. transform (state w') = Some t' \<and> bindings t' = bindings ta
           \<and> currentIndex t' < 2 \<and> elementCount t' = elementCount ta"
        if "transform (state w) = Some ta" for ta
        using that it by (simp add: w' swap_def)
      show "buffers (gl w') h = buffers (gl w) h" if "ages (state w) = Some h" for h
        using that f b by (simp add: w' g1_def Transform_run_other copyData_other)
      show "\<exists>d'. buffers (gl w') h = Some d' \<and> length d' = length d"
        if "buffers (gl w) h = Some d" for h d
        using that by (rule len)
    qed (simp_all add: w' Transform_run_next g1_def copyData_next)
    then show ?thesis using w' by simp
  qed
qed

section \<open>Allocation, clearing, and the age buffer\<close>

lemma length_ages_data: "length (ages_data n m) = n * m"
  by (induction m) (simp_all add: ages_data_def)

lemma ages_data_Suc: "ages_data n (Suc m) = ages_data n m @ replicate n (real m)"
  by (simp add: ages_data_def)

lemma ages_data_nth: "i < n * m \<Longrightarrow> ages_data n m ! i = real (i div n)"
proof (induction m)
  case 0
  then show ?case by simp
next
  case (Suc m)
  show ?case
  proof (cases "i < n * m")
    case True
    then show ?thesis using Suc.IH
      by (simp add: ages_data_Suc nth_append length_ages_data)
  next
    case False
    then have "n * m \<le> i" by simp
    moreover have "i < n * m + n" using Suc.prems by simp
    ultimately have "i div n = m"
      by (intro div_nat_eqI) simp_all
    then show ?thesis using False Suc.prems
      by (simp add: ages_data_Suc nth_append length_ages_data)
  qed
qed

lemma delete_props: "deleteTransformFeedback w = Done w1 \<Longrightarrow> props w1 = props w"
  by (auto simp add: deleteTransformFeedback_def Let_def split: if_splits option.splits)

lemma createResources_Inr:
  assumes "createResources k limit n m g = Inr ((sp, tp, ag, t), g3)"
  shows "sp = next_handle g" and "tp = Suc (next_handle g)" and "ag = Suc (Suc (next_handle g))"
    and "t = new_Transform k sp tp (n * m)"
    and "float32_fits limit (n * m * 3)"
    and "next_handle g3 = Suc (Suc (Suc (next_handle g)))"
    and "buffers g3 = (buffers g)(next_handle g \<mapsto> replicate (n * m * 3) 0,
            Suc (next_handle g) \<mapsto> replicate (n * m * 3) 0,
            Suc (Suc (next_handle g)) \<mapsto> ages_data n m)"
  using assms
  by (auto simp add: createResources_def new_Float32Array_def Float32Array_from_def
      ages_array_def create_Transform_def new_Buffer_def Let_def
      split: if_splits)

lemma delete_limit:
  "deleteTransformFeedback w = Done w1 \<Longrightarrow> typed_array_limit w1 = typed_array_limit w"
  by (auto simp add: deleteTransformFeedback_def Let_def split: if_splits option.splits)

lemma setup_allocated:
  assumes "setupTransformFeedback k w = Done w1"
  shows "allocated w1 \<and> props w1 = props w"
proof -
  from assms obtain w0 sp tp ag t g3 where
    d: "(if initialized (state w) then deleteTransformFeedback w else Done w) = Done w0"
    and c: "createResources k (typed_array_limit w) (numParticles (props w)) (maxAge (props w))
              (gl w0) = Inr ((sp, tp, ag, t), g3)"
    and w1: "w1 = w0\<lparr>gl := g3,
                state := (state w0)\<lparr>
                  initialized := True,
                  numInstances := numParticles (props w) * maxAge (props w),
                  numAgedInstances := int (numParticles (props w)) * (int (maxAge (props w)) - 1),
                  sourcePositions := Some sp, targetPositions := Some tp, ages := Some ag,
                  transform := Some t\<rparr>\<rparr>"
    by (auto simp add: setupTransformFeedback_def split: outcome.splits sum.splits prod.splits)
  from d have p: "props w0 = props w" and l: "typed_array_limit w0 = typed_array_limit w"
    by (auto dest: delete_props delete_limit split: if_splits)
  note r = createResources_Inr [OF c]
  have "allocated w1"
    by (rule allocatedI [where sp = sp and tp = tp and ag = ag and t = t
          and a = "replicate (numParticles (props w) * maxAge (props w) * 3) 0"
          and b = "replicate (numParticles (props w) * maxAge (props w) * 3) 0"])
       (simp_all add: w1 r p l new_Transform_def)
  then show ?thesis by (simp add: w1 p)
qed

lemma allocated_index: "allocated w \<Longrightarrow> transform (state w) = Some t \<Longrightarrow> currentIndex t < 2"
  by (erule allocatedE) simp

lemma clear_allocated:
  assumes w: "allocated w"
    and f: "sourcePositions (state w) = Some sp" "targetPositions (state w) = Some tp"
      "buffers (gl w) sp = Some a" "buffers (gl w) tp = Some b"
  shows "\<exists>w'. clear w = Done w' \<and> allocated w' \<and> state w' = state w \<and> props w' = props w
      \<and> buffers (gl w') sp = Some (replicate (length a) 0)
      \<and> buffers (gl w') tp = Some (replicate (length b) 0)
      \<and> (\<forall>h. h \<noteq> sp \<and> h \<noteq> tp \<longrightarrow> buffers (gl w') h = buffers (gl w) h)"
proof -
  from w f have ne: "sp \<noteq> tp" and la: "length a = 3 * numInstances (state w)"
    and lb: "length b = 3 * numInstances (state w)"
    and fits: "float32_fits (typed_array_limit w) (numInstances (state w) * 3)"
    by (auto elim!: allocatedE)
  define z where "z = replicate (numInstances (state w) * 3) (0::real)"
  define g1 where "g1 = subData (gl w) sp z"
  define g2 where "g2 = subData g1 tp z"
  have g1: "buffers g1 = (buffers (gl w))(sp \<mapsto> z)" "next_handle g1 = next_handle (gl w)"
    using f la by (simp_all add: g1_def subData_def z_def)
  have g2: "buffers g2 = (buffers (gl w))(sp \<mapsto> z, tp \<mapsto> z)" "next_handle g2 = next_handle (gl w)"
    using f lb ne g1 by (simp_all add: g2_def subData_def z_def)
  have c: "clear w = Done (setNeedsRedraw (w\<lparr>gl := g2\<rparr>))"
    using f fits by (simp add: clear_def new_Float32Array_def Let_def g1_def g2_def z_def)
  have "allocated (setNeedsRedraw (w\<lparr>gl := g2\<rparr>))"
  proof (rule allocated_frame [OF w])
    show "\<exists>d'. buffers (gl (setNeedsRedraw (w\<lparr>gl := g2\<rparr>))) h = Some d' \<and> length d' = length d"
      if "buffers (gl w) h = Some d" for h d
      using that f la lb by (auto simp add: setNeedsRedraw_def g2 z_def)
    show "buffers (gl (setNeedsRedraw (w\<lparr>gl := g2\<rparr>))) h = buffers (gl w) h"
      if "ages (state w) = Some h" for h
      using that w f by (auto simp add: setNeedsRedraw_def g2 elim!: allocatedE)
  qed (simp_all add: setNeedsRedraw_def g2 allocated_index [OF w])
  then show ?thesis
    using c ne la lb by (simp add: setNeedsRedraw_def g2 z_def mult.commute)
qed

lemma apply_op_allocated:
  assumes w: "allocated w" and g: "same_grid (props w) operation"
    and r: "apply_op k operation w = Done w'"
  shows "allocated w' \<and> numParticles (props w') = numParticles (props w)
       \<and> maxAge (props w') = maxAge (props w) \<and> ages (state w') = ages (state w)"
proof (cases operation)
  case (Step fr)
  with r obtain w1 where w1: "runTransformFeedback fr w = Done w1" "w' = setNeedsRedraw w1"
    by (auto simp add: apply_op_def step_def split: outcome.splits)
  from allocated_run [OF w w1(1)] have a: "allocated w1" "props w1 = props w" by simp_all
  have "allocated w'"
    by (rule allocated_frame [OF a(1)])
       (simp_all add: w1(2) setNeedsRedraw_def allocated_index [OF a(1)])
  moreover have "ages (state w1) = ages (state w)"
    using run_cases [OF w1(1)] run_bound [of w _ _ fr] w1(1) by auto
  ultimately show ?thesis using a by (simp add: w1(2) setNeedsRedraw_def)
next
  case (Draw fr)
  show ?thesis
  proof (cases "animate (props w)")
    case True
    with r Draw have w1: "runTransformFeedback fr w = Done w'"
      by (simp add: apply_op_def draw_def)
    moreover have "ages (state w') = ages (state w)"
      using run_cases [OF w1] run_bound [of w _ _ fr] w1 by auto
    ultimately show ?thesis using allocated_run [OF w w1] by simp
  next
    case False
    with r Draw have "w' = w" by (simp add: apply_op_def draw_def)
    then show ?thesis using w by simp
  qed
next
  case Clear
  from w obtain sp tp a b where f: "sourcePositions (state w) = Some sp"
    "targetPositions (state w) = Some tp" "buffers (gl w) sp = Some a" "buffers (gl w) tp = Some b"
    by (auto elim!: allocatedE)
  from clear_allocated [OF w f] r Clear show ?thesis
    by (auto simp add: apply_op_def)
next
  case (SetProps p)
  with g have same: "numParticles p = numParticles (props w)" "maxAge p = maxAge (props w)"
    by (simp_all add: same_grid_def)
  with r SetProps have w': "w' = w\<lparr>props := p\<rparr>"
    by (simp add: apply_op_def updateState_def)
  have "allocated w'"
    by (rule allocated_frame [OF w]) (simp_all add: w' same allocated_index [OF w])
  then show ?thesis by (simp add: w' same)
qed

lemma same_grid_cong:
  "numParticles p' = numParticles p \<Longrightarrow> maxAge p' = maxAge p
   \<Longrightarrow> same_grid p' operation = same_grid p operation"
  by (simp add: same_grid_def split: layer_op.splits)

lemma apply_ops_allocated:
  assumes "allocated w" and "\<forall>operation \<in> set ops. same_grid (props w) operation"
    and "apply_ops k ops w = Done w'"
  shows "allocated w' \<and> numParticles (props w') = numParticles (props w)
       \<and> maxAge (props w') = maxAge (props w) \<and> ages (state w') = ages (state w)"
  using assms
proof (induction ops arbitrary: w)
  case Nil
  then show ?case by simp
next
  case (Cons operation ops)
  from Cons.prems(3) obtain w1 where w1: "apply_op k operation w = Done w1"
    "apply_ops k ops w1 = Done w'"
    by (auto split: outcome.splits)
  from Cons.prems(2) have g: "same_grid (props w) operation" by simp
  from apply_op_allocated [OF Cons.prems(1) g w1(1)] have a: "allocated w1"
    "numParticles (props w1) = numParticles (props w)" "maxAge (props w1) = maxAge (props w)"
    "ages (state w1) = ages (state w)" by simp_all
  have "\<forall>operation \<in> set ops. same_grid (props w1) operation"
    using Cons.prems(2) by (simp add: same_grid_cong [OF a(2,3)])
  from Cons.IH [OF a(1) this w1(2)] show ?case using a by simp
qed

text \<open>
  C2. After a setup that returns, the source and target position buffers each hold
  numParticles * maxAge * 3 floats, the age buffer holds numParticles * maxAge floats, and
  the age at slot i is i div numParticles. This holds for every numParticles and maxAge,
  so for the valid ones. After any sequence of steps, draws, clears and prop changes that
  keep numParticles and maxAge, the state still names the same age buffer and its content
  is the same.
\<close>

theorem allocation_layout:
  assumes s: "setupTransformFeedback k w = Done w1"
    and g: "\<forall>operation \<in> set ops. same_grid (props w) operation"
    and r: "apply_ops k ops w1 = Done w2"
  shows "\<exists>sp tp ag a b ages'.
      sourcePositions (state w1) = Some sp \<and> targetPositions (state w1) = Some tp
      \<and> ages (state w1) = Some ag
      \<and> buffers (gl w1) sp = Some a \<and> length a = numParticles (props w) * maxAge (props w) * 3
      \<and> buffers (gl w1) tp = Some b \<and> length b = numParticles (props w) * maxAge (props w) * 3
      \<and> buffers (gl w1) ag = Some ages'
      \<and> length ages' = numParticles (props w) * maxAge (props w)
      \<and> (\<forall>i < numParticles (props w) * maxAge (props w).
            ages' ! i = real (i div numParticles (props w)))
      \<and> ages (state w2) = Some ag \<and> buffers (gl w2) ag = Some ages'"
proof -
  from setup_allocated [OF s] have a1: "allocated w1" and p1: "props w1 = props w" by simp_all
  from g have "\<forall>operation \<in> set ops. same_grid (props w1) operation" by (simp add: p1)
  from apply_ops_allocated [OF a1 this r] have a2: "allocated w2"
    and p2: "numParticles (props w2) = numParticles (props w)" "maxAge (props w2) = maxAge (props w)"
    and ag2: "ages (state w2) = ages (state w1)" by (simp_all add: p1)
  from a1 obtain sp tp ag a b where f:
    "sourcePositions (state w1) = Some sp" "targetPositions (state w1) = Some tp"
    "ages (state w1) = Some ag"
    "numInstances (state w1) = numParticles (props w1) * maxAge (props w1)"
    "buffers (gl w1) sp = Some a" "length a = 3 * numInstances (state w1)"
    "buffers (gl w1) tp = Some b" "length b = 3 * numInstances (state w1)"
    "buffers (gl w1) ag = Some (ages_data (numParticles (props w1)) (maxAge (props w1)))"
    by (rule allocatedE)
  from a2 ag2 f(3) have "buffers (gl w2) ag
      = Some (ages_data (numParticles (props w2)) (maxAge (props w2)))"
    by (auto elim!: allocatedE)
  then show ?thesis using f ag2
    by (simp add: p1 p2 length_ages_data ages_data_nth)
qed

text \<open>
  C6. In an allocated world (the buffers are live, as after setup), \<open>clear\<close> returns,
  both position buffers keep their handles and lengths and hold only zeros, the age
  buffer is unchanged, and so are the layer's state record and props.
\<close>

theorem clear_zeroes_positions:
  assumes "allocated w"
  shows "\<exists>w' sp tp ag a b.
      clear w = Done w'
      \<and> sourcePositions (state w) = Some sp \<and> targetPositions (state w) = Some tp
      \<and> ages (state w) = Some ag
      \<and> buffers (gl w) sp = Some a \<and> buffers (gl w') sp = Some (replicate (length a) 0)
      \<and> buffers (gl w) tp = Some b \<and> buffers (gl w') tp = Some (replicate (length b) 0)
      \<and> buffers (gl w') ag = buffers (gl w) ag
      \<and> state w' = state w \<and> props w' = props w"
proof -
  from assms obtain sp tp ag a b where f: "sourcePositions (state w) = Some sp"
    "targetPositions (state w) = Some tp" "buffers (gl w) sp = Some a" "buffers (gl w) tp = Some b"
    and g: "ages (state w) = Some ag" "sp \<noteq> ag" "tp \<noteq> ag"
    by (auto elim!: allocatedE)
  from clear_allocated [OF assms f] g f show ?thesis by auto
qed

section \<open>Operations on an allocated world return\<close>

lemmas demo_defs = demo_world_def demo_props_def blank_state_def fresh_gl_def demo_frame_def
  demo_viewport_def

lemmas setup_defs = setupTransformFeedback_def createResources_def new_Float32Array_def
  Float32Array_from_def float32_fits_def ages_array_def array_length_ok_def
  create_Transform_def new_Buffer_def Let_def

lemma Done_world_of: "\<exists>w'. r = Done w' \<Longrightarrow> r = Done (world_of r)"
  by (auto simp add: world_of_def)

lemma run_total:
  assumes "allocated w"
  shows "\<exists>w'. runTransformFeedback fr w = Done w'"
proof (cases "image_tex (props w)")
  case None
  then show ?thesis by (simp add: runTransformFeedback_def)
next
  case (Some img)
  from assms obtain t where t: "transform (state w) = Some t" "currentIndex t < length (bindings t)"
    by (auto elim!: allocatedE)
  from run_bound [OF Some t, of fr] show ?thesis by blast
qed

lemma apply_op_total:
  assumes w: "allocated w" and g: "same_grid (props w) operation"
  shows "\<exists>w'. apply_op k operation w = Done w'"
proof (cases operation)
  case (Step fr)
  then show ?thesis using run_total [OF w, of fr] by (auto simp add: apply_op_def step_def)
next
  case (Draw fr)
  then show ?thesis using run_total [OF w, of fr] by (auto simp add: apply_op_def draw_def)
next
  case Clear
  from w obtain sp tp a b where f: "sourcePositions (state w) = Some sp"
    "targetPositions (state w) = Some tp" "buffers (gl w) sp = Some a" "buffers (gl w) tp = Some b"
    by (auto elim!: allocatedE)
  from clear_allocated [OF w f] Clear show ?thesis by (auto simp add: apply_op_def)
next
  case (SetProps p)
  then show ?thesis using g by (simp add: apply_op_def updateState_def same_grid_def)
qed

lemma apply_ops_total:
  assumes "allocated w" and "\<forall>operation \<in> set ops. same_grid (props w) operation"
  shows "\<exists>w'. apply_ops k ops w = Done w'"
  using assms
proof (induction ops arbitrary: w)
  case Nil
  then show ?case by simp
next
  case (Cons operation ops)
  from Cons.prems have g: "same_grid (props w) operation" by simp
  from apply_op_total [OF Cons.prems(1) g] obtain w1 where w1: "apply_op k operation w = Done w1"
    by blast
  from apply_op_allocated [OF Cons.prems(1) g w1] have a: "allocated w1"
    "numParticles (props w1) = numParticles (props w)" "maxAge (props w1) = maxAge (props w)"
    by simp_all
  have "\<forall>operation \<in> set ops. same_grid (props w1) operation"
    using Cons.prems(2) by (simp add: same_grid_cong [OF a(2,3)])
  from Cons.IH [OF a(1) this] show ?case by (simp add: w1)
qed

lemma demo_setup:
  "setupTransformFeedback demo_kernel (demo_world 1 2 (Some 7) 1000) = Done demo_ready"
  unfolding demo_ready_def
  by (simp add: setup_defs demo_defs world_of_def length_ages_data)

lemma demo_ready_allocated: "allocated demo_ready"
  using setup_allocated [OF demo_setup] by simp

lemma demo_ready_props: "props demo_ready = demo_props 1 2 (Some 7)"
  using setup_allocated [OF demo_setup] by (simp add: demo_world_def)

theorem allocation_layout_witness:
  "setupTransformFeedback demo_kernel (demo_world 1 2 (Some 7) 1000) = Done demo_ready
   \<and> same_grid (props (demo_world 1 2 (Some 7) 1000)) (Step demo_frame)
   \<and> same_grid (props (demo_world 1 2 (Some 7) 1000)) Clear
   \<and> apply_ops demo_kernel [Step demo_frame, Clear] demo_ready
       = Done (world_of (apply_ops demo_kernel [Step demo_frame, Clear] demo_ready))
   \<and> (\<exists>ages'. buffers (gl demo_ready) 2 = Some ages' \<and> length ages' = 2
         \<and> buffers (gl (world_of (apply_ops demo_kernel [Step demo_frame, Clear] demo_ready))) 2
             = Some ages')"
proof -
  let ?ops = "[Step demo_frame, Clear]"
  have g: "\<forall>operation \<in> set ?ops. same_grid (props (demo_world 1 2 (Some 7) 1000)) operation"
    by (simp add: same_grid_def)
  then have "\<forall>operation \<in> set ?ops. same_grid (props demo_ready) operation"
    by (simp add: demo_ready_props demo_world_def)
  from apply_ops_total [OF demo_ready_allocated this]
  have r: "apply_ops demo_kernel ?ops demo_ready
       = Done (world_of (apply_ops demo_kernel ?ops demo_ready))"
    by (rule Done_world_of)
  have "ages (state demo_ready) = Some 2"
    unfolding demo_ready_def
    by (simp add: setup_defs demo_defs world_of_def length_ages_data)
  with allocation_layout [OF demo_setup g r] demo_setup g r show ?thesis
    by (auto simp add: demo_defs same_grid_def)
qed

theorem clear_zeroes_positions_witness:
  "allocated demo_ready
   \<and> (\<exists>w' sp tp ag a b.
      clear demo_ready = Done w'
      \<and> sourcePositions (state demo_ready) = Some sp \<and> targetPositions (state demo_ready) = Some tp
      \<and> ages (state demo_ready) = Some ag
      \<and> buffers (gl demo_ready) sp = Some a \<and> buffers (gl w') sp = Some (replicate (length a) 0)
      \<and> buffers (gl demo_ready) tp = Some b \<and> buffers (gl w') tp = Some (replicate (length b) 0)
      \<and> buffers (gl w') ag = buffers (gl demo_ready) ag
      \<and> state w' = state demo_ready \<and> props w' = props demo_ready)"
  using demo_ready_allocated clear_zeroes_positions [OF demo_ready_allocated]
  by (rule conjI)


section \<open>The aging shift and the advection pass\<close>

lemma feedback_add:
  "feedback k u s (n + m) =
      feedback k u s n @ concat (map (\<lambda>i. vec3_floats (k u i (vertexAt s i))) [n..<n + m])"
  using upt_add_eq_append [of 0 n m] by (simp add: feedback_def)

lemma take_feedback:
  assumes "n \<le> n'"
  shows "take (3 * n) (feedback k u s n') = feedback k u s n"
proof -
  from assms obtain m where m: "n' = n + m" using le_Suc_ex by blast
  show ?thesis unfolding m feedback_add using length_feedback [of k u s n] by simp
qed

lemma feedback_cong:
  assumes "\<And>i. i < 3 * n \<Longrightarrow> s ! i = s' ! i"
  shows "feedback k u s n = feedback k u s' n"
proof -
  have "vertexAt s i = vertexAt s' i" if "i < n" for i
    using that by (simp add: vertexAt_def assms)
  then have "map (\<lambda>i. vec3_floats (k u i (vertexAt s i))) [0..<n]
      = map (\<lambda>i. vec3_floats (k u i (vertexAt s' i))) [0..<n]"
    by (intro map_cong) simp_all
  then show ?thesis by (simp only: feedback_def)
qed

lemma feedback_band0:
  "3 * n \<le> length s \<Longrightarrow> feedback k u (band n 0 s) n = feedback k u s n"
  by (rule feedback_cong) (simp add: band_def)

lemma band_shifted:
  assumes "a + 1 < m" and "length s = 3 * n * m"
  shows "band n (a + 1) (take (3 * n) s @ take (3 * n * (m - 1)) d) = band n a d"
proof -
  have "3 * n * 1 \<le> 3 * n * m" using assms(1) by (intro mult_le_mono2) simp
  then have l: "length (take (3 * n) s) = 3 * n" using assms(2) by simp
  have "3 * n * a + 3 * n \<le> 3 * n * (m - 1)"
  proof -
    have "a + 1 \<le> m - 1" using assms(1) by simp
    then have "3 * n * (a + 1) \<le> 3 * n * (m - 1)" by (rule mult_le_mono2)
    then show ?thesis by simp
  qed
  then have "3 * n \<le> 3 * n * (m - 1) - a * (3 * n)" by (simp add: mult.commute)
  then have "take (3 * n) (take (3 * n * (m - 1) - a * (3 * n)) (drop (a * (3 * n)) d))
      = take (3 * n) (drop (a * (3 * n)) d)"
    by (simp add: min_absorb1)
  moreover have "drop ((a + 1) * (3 * n)) (take (3 * n) s @ take (3 * n * (m - 1)) d)
      = drop (a * (3 * n)) (take (3 * n * (m - 1)) d)"
    using l by simp
  ultimately show ?thesis
    unfolding band_def by (simp only: drop_take)
qed


lemma allocated_binding:
  assumes "allocated w" and "transform (state w) = Some t"
    and "b = bindings t ! currentIndex t"
  obtains s d where "sourcePosition b \<noteq> targetPosition b"
    "currentIndex t < length (bindings t)"
    "elementCount t = numParticles (props w) * maxAge (props w)"
    "numAgedInstances (state w) = int (numParticles (props w)) * (int (maxAge (props w)) - 1)"
    "buffers (gl w) (sourcePosition b) = Some s"
    "length s = 3 * (numParticles (props w) * maxAge (props w))"
    "buffers (gl w) (targetPosition b) = Some d"
    "length d = 3 * (numParticles (props w) * maxAge (props w))"
proof -
  from assms(1) obtain sp tp a c where f:
    "bindings t = [\<lparr>sourcePosition = sp, targetPosition = tp\<rparr>,
                   \<lparr>sourcePosition = tp, targetPosition = sp\<rparr>]"
    "sp \<noteq> tp" "currentIndex t < 2" "elementCount t = numInstances (state w)"
    "numInstances (state w) = numParticles (props w) * maxAge (props w)"
    "numAgedInstances (state w) = int (numParticles (props w)) * (int (maxAge (props w)) - 1)"
    "buffers (gl w) sp = Some a" "length a = 3 * numInstances (state w)"
    "buffers (gl w) tp = Some c" "length c = 3 * numInstances (state w)"
    using assms(2) by (auto elim!: allocatedE)
  consider "currentIndex t = 0" | "currentIndex t = 1"
    using less_2_cases [OF f(3)] by auto
  then show ?thesis
  proof cases
    case 1
    then show ?thesis using f by (intro that [of a c]) (simp_all add: assms(3))
  next
    case 2
    then show ?thesis using f by (intro that [of c a]) (simp_all add: assms(3))
  qed
qed


lemma band_total: "1 \<le> m \<Longrightarrow> 3 * n + 3 * n * (m - 1) = 3 * (n * (m::nat))"
  by (cases m) simp_all

lemma aged_bytes:
  "1 \<le> m \<Longrightarrow> int n * (int m - 1) * 4 * 3 = 4 * int (3 * n * (m - 1))"
  by (cases m) simp_all

lemma shift_result:
  assumes "buffers g S = Some s" and "buffers g T = Some d" and "S \<noteq> T"
    and "length s = 3 * (n * m)" and "length d = 3 * (n * m)" and "1 \<le> m"
  shows "copyData g S T 0 (int n * 4 * 3) (int n * (int m - 1) * 4 * 3) =
           g\<lparr>buffers := (buffers g)(S \<mapsto> take (3 * n) s @ take (3 * n * (m - 1)) d)\<rparr>"
proof -
  have "copyData g S T (4 * int 0) (4 * int (3 * n)) (4 * int (3 * n * (m - 1))) =
      g\<lparr>buffers := (buffers g)(S \<mapsto>
        take (3 * n) s @ take (3 * n * (m - 1)) (drop 0 d) @ drop (3 * n + 3 * n * (m - 1)) s)\<rparr>"
    using assms(1,2,3)
  proof (rule copyData_aligned)
    show "0 + 3 * n * (m - 1) \<le> length d"
      using band_total [OF assms(6), of n] assms(5) by linarith
    show "3 * n + 3 * n * (m - 1) \<le> length s"
      using band_total [OF assms(6), of n] assms(4) by linarith
  qed
  moreover have "drop (3 * n + 3 * n * (m - 1)) s = []"
    using band_total [OF assms(6), of n] assms(4) by simp
  moreover have "int n * 4 * 3 = 4 * int (3 * n)" by simp
  ultimately show ?thesis
    by (simp only: aged_bytes [OF assms(6)] drop_0 append_Nil2 of_nat_0 mult_zero_right)
qed


lemma run_result:
  assumes "buffers g (sourcePosition b) = Some s'" and "buffers g (targetPosition b) = Some d"
    and "sourcePosition b \<noteq> targetPosition b"
    and "length s' = 3 * elementCount t" and "length d = 3 * elementCount t"
  shows "Transform_run g t b u =
           g\<lparr>buffers := (buffers g)(targetPosition b \<mapsto> feedback (vs t) u s' (elementCount t))\<rparr>"
  using assms by (simp add: Transform_run_def)

lemma band0_shifted:
  "3 * n \<le> length s \<Longrightarrow> band n 0 (take (3 * n) s @ xs) = band n 0 s"
  by (simp add: band_def)

lemma band0_feedback:
  assumes "1 \<le> m" and "3 * n \<le> length s"
  shows "band n 0 (feedback k u s (n * m)) = feedback k u (band n 0 s) n"
proof -
  have "n \<le> n * m" using assms(1) by simp
  then have "band n 0 (feedback k u s (n * m)) = feedback k u s n"
    unfolding band_def by (simp add: take_feedback)
  then show ?thesis using assms(2) by (simp add: feedback_band0)
qed


lemma shift_advect_core:
  assumes w: "allocated w" and img: "image_tex (props w) = Some img"
    and m: "1 \<le> maxAge (props w)"
    and t: "transform (state w) = Some t" and b: "b = bindings t ! currentIndex t"
    and s: "buffers (gl w) (sourcePosition b) = Some s"
    and d: "buffers (gl w) (targetPosition b) = Some d"
    and u: "u = frameUniforms (props w) fr img (random_draws w (random_calls w))"
  shows "\<exists>w' s' d'.
      runTransformFeedback fr w = Done w'
      \<and> buffers (gl w') (sourcePosition b) = Some s'
      \<and> buffers (gl w') (targetPosition b) = Some d'
      \<and> s' = take (3 * numParticles (props w)) s
               @ take (3 * numParticles (props w) * (maxAge (props w) - 1)) d
      \<and> (\<forall>a. a + 1 < maxAge (props w) \<longrightarrow>
            band (numParticles (props w)) (a + 1) s' = band (numParticles (props w)) a d)
      \<and> band (numParticles (props w)) 0 s' = band (numParticles (props w)) 0 s
      \<and> (maxAge (props w) = 1 \<longrightarrow> s' = s)
      \<and> d' = feedback (vs t) u s' (numParticles (props w) * maxAge (props w))
      \<and> band (numParticles (props w)) 0 d'
          = feedback (vs t) u (band (numParticles (props w)) 0 s) (numParticles (props w))
      \<and> transform (state w') = Some (swap t)"
proof -
  define N where "N = numParticles (props w)"
  define M where "M = maxAge (props w)"
  from allocated_binding [OF w t b] s d have f:
    "sourcePosition b \<noteq> targetPosition b" "currentIndex t < length (bindings t)"
    "elementCount t = N * M" "numAgedInstances (state w) = int N * (int M - 1)"
    "length s = 3 * (N * M)" "length d = 3 * (N * M)"
    unfolding N_def M_def by auto
  have M: "1 \<le> M" using m by (simp only: M_def)
  define s' where "s' = take (3 * N) s @ take (3 * N * (M - 1)) d"
  define d' where "d' = feedback (vs t) u s' (N * M)"
  define g1 where "g1 = copyData (gl w) (sourcePosition b) (targetPosition b) 0
               (int N * 4 * 3) (numAgedInstances (state w) * 4 * 3)"
  have g1: "g1 = (gl w)\<lparr>buffers := (buffers (gl w))(sourcePosition b \<mapsto> s')\<rparr>"
    unfolding g1_def f(4) s'_def using s d f(1) f(5) f(6) M by (rule shift_result)
  have N3: "3 * N \<le> length s"
    using band_total [OF M, of N] f(5) by linarith
  have ls': "length s' = 3 * elementCount t"
    unfolding s'_def f(3) using band_total [OF M, of N] f(5,6) by simp
  have g2: "Transform_run g1 t b u = g1\<lparr>buffers := (buffers g1)(targetPosition b \<mapsto> d')\<rparr>"
    unfolding d'_def f(3) [symmetric]
  proof (rule run_result)
    show "buffers g1 (sourcePosition b) = Some s'" by (simp add: g1)
    show "buffers g1 (targetPosition b) = Some d" using f(1) d by (simp add: g1)
    show "length d = 3 * elementCount t" by (simp only: f(3) f(6))
  qed (rule f(1), rule ls')
  from run_bound [OF img t f(2), of fr] obtain w' where w':
    "runTransformFeedback fr w = Done w'" "gl w' = Transform_run g1 t b u"
    "state w' = (state w)\<lparr>transform := Some (swap t)\<rparr>"
    unfolding g1_def N_def b u by blast
  have b0: "band N 0 s' = band N 0 s"
    unfolding s'_def using N3 by (rule band0_shifted)
  have adv: "band N 0 d' = feedback (vs t) u (band N 0 s) N"
  proof -
    have "3 * N \<le> length s'" using N3 ls' f(3,5) by simp
    with M have "band N 0 d' = feedback (vs t) u (band N 0 s') N"
      unfolding d'_def by (rule band0_feedback)
    then show ?thesis by (simp only: b0)
  qed
  have shift: "band N (a + 1) s' = band N a d" if "a + 1 < M" for a
    unfolding s'_def using that f(5) by (intro band_shifted) (simp_all only: mult.assoc)
  have one: "s' = s" if "M = 1"
    using that f(5) by (simp add: s'_def)
  have bs: "buffers (gl w') (sourcePosition b) = Some s'"
    unfolding w'(2) g2 using f(1) by (simp add: g1)
  have bd: "buffers (gl w') (targetPosition b) = Some d'"
    unfolding w'(2) g2 by simp
  have tr: "transform (state w') = Some (swap t)"
    by (simp add: w'(3))
  have "runTransformFeedback fr w = Done w'
      \<and> buffers (gl w') (sourcePosition b) = Some s'
      \<and> buffers (gl w') (targetPosition b) = Some d'
      \<and> s' = take (3 * N) s @ take (3 * N * (M - 1)) d
      \<and> (\<forall>a. a + 1 < M \<longrightarrow> band N (a + 1) s' = band N a d)
      \<and> band N 0 s' = band N 0 s
      \<and> (M = 1 \<longrightarrow> s' = s)
      \<and> d' = feedback (vs t) u s' (N * M)
      \<and> band N 0 d' = feedback (vs t) u (band N 0 s) N
      \<and> transform (state w') = Some (swap t)"
    using w'(1) bs bd shift b0 one adv tr s'_def d'_def by blast
  then show ?thesis
    unfolding N_def M_def by blast
qed

text \<open>
  C1. In an allocated world with maxAge at least 1 and an image bound, one pass of
  \<open>runTransformFeedback\<close> on the current binding (source buffer S with content s, target
  buffer T with content d) returns, and first shifts: S then holds its own band 0 followed
  by bands 0 to maxAge - 2 of d, that is numParticles * (maxAge - 1) * 3 floats of d written
  one band of numParticles * 3 floats further on, so band a + 1 of S is band a of d for
  every a + 1 < maxAge, the older bands of S and the last band of d are not kept, and with
  maxAge = 1 nothing is copied. Then T receives the kernel's output on the shifted S; its
  band 0 is the kernel's output on band 0 of s. Last, the transform's bindings are swapped.
\<close>

theorem aging_shift_then_advect:
  assumes w: "allocated w" and img: "image_tex (props w) = Some img"
    and m: "1 \<le> maxAge (props w)"
    and t: "transform (state w) = Some t" and b: "b = bindings t ! currentIndex t"
    and s: "buffers (gl w) (sourcePosition b) = Some s"
    and d: "buffers (gl w) (targetPosition b) = Some d"
    and u: "u = frameUniforms (props w) fr img (random_draws w (random_calls w))"
  shows "\<exists>w' s' d'.
      runTransformFeedback fr w = Done w'
      \<and> buffers (gl w') (sourcePosition b) = Some s'
      \<and> buffers (gl w') (targetPosition b) = Some d'
      \<and> s' = take (3 * numParticles (props w)) s
               @ take (3 * numParticles (props w) * (maxAge (props w) - 1)) d
      \<and> (\<forall>a. a + 1 < maxAge (props w) \<longrightarrow>
            band (numParticles (props w)) (a + 1) s' = band (numParticles (props w)) a d)
      \<and> band (numParticles (props w)) 0 s' = band (numParticles (props w)) 0 s
      \<and> (maxAge (props w) = 1 \<longrightarrow> s' = s)
      \<and> d' = feedback (vs t) u s' (numParticles (props w) * maxAge (props w))
      \<and> band (numParticles (props w)) 0 d'
          = feedback (vs t) u (band (numParticles (props w)) 0 s) (numParticles (props w))
      \<and> transform (state w') = Some (swap t)"
  using assms by (rule shift_advect_core)

section \<open>The pass on a concrete world\<close>

lemma demo_ready_state:
  "state demo_ready =
     \<lparr> initialized = True, numInstances = 2, numAgedInstances = 1, sourcePositions = Some 0,
       targetPositions = Some 1, ages = Some 2,
       transform = Some (new_Transform demo_kernel 0 1 2) \<rparr>"
  unfolding demo_ready_def
  by (simp add: setup_defs demo_defs world_of_def length_ages_data)

lemma demo_ready_gl_raw:
  "gl demo_ready =
     \<lparr> buffers = [0 \<mapsto> replicate 6 0, Suc 0 \<mapsto> replicate 6 0, Suc (Suc 0) \<mapsto> ages_data 1 2],
       next_handle = Suc (Suc (Suc 0)), gl_errors = [], can_transform = True \<rparr>"
  unfolding demo_ready_def
  by (simp add: setup_defs demo_defs world_of_def length_ages_data)

lemma replicate_6: "replicate 6 (0::real) = [0, 0, 0, 0, 0, 0]"
  by (simp add: eval_nat_numeral)

lemma upt_0_2: "[0..<2] = [0, 1]"
  by (simp add: upt_rec)

lemma ages_data_1_2: "ages_data 1 2 = [0, 1]"
  by (simp add: ages_data_def upt_0_2)

lemma demo_ready_gl:
  "gl demo_ready =
     \<lparr> buffers = [0 \<mapsto> [0, 0, 0, 0, 0, 0], Suc 0 \<mapsto> [0, 0, 0, 0, 0, 0], 2 \<mapsto> [0, 1]],
       next_handle = 3, gl_errors = [], can_transform = True \<rparr>"
  unfolding demo_ready_gl_raw replicate_6 ages_data_1_2
  by (simp only: numeral_2_eq_2 numeral_3_eq_3)

lemma demo_ready_buffers:
  "buffers (gl demo_ready) 0 = Some [0, 0, 0, 0, 0, 0]"
  "buffers (gl demo_ready) (Suc 0) = Some [0, 0, 0, 0, 0, 0]"
  "buffers (gl demo_ready) 2 = Some [0, 1]"
  by (simp_all add: demo_ready_gl)

lemma demo_ready_random: "random_calls demo_ready = 0" "random_draws demo_ready = (\<lambda>n. 1 / (real n + 2))"
  unfolding demo_ready_def
  by (simp_all add: setup_defs demo_defs world_of_def length_ages_data)


lemma demo_stepped_run:
  "gl demo_stepped = Transform_run (copyData (gl demo_ready) 0 1 0 12 12)
       (new_Transform demo_kernel 0 1 2) \<lparr>sourcePosition = 0, targetPosition = 1\<rparr>
       (frameUniforms (demo_props 1 2 (Some 7)) demo_frame 7 (1 / 2))"
  "state demo_stepped = (state demo_ready)\<lparr>transform := Some (swap (new_Transform demo_kernel 0 1 2))\<rparr>"
  "props demo_stepped = demo_props 1 2 (Some 7)"
  "random_calls demo_stepped = 1" "random_draws demo_stepped = (\<lambda>n. 1 / (real n + 2))"
  using run_bound [of demo_ready 7 "new_Transform demo_kernel 0 1 2" demo_frame]
  by (auto simp add: demo_stepped_def step_def world_of_def setNeedsRedraw_def demo_ready_state
      demo_ready_props demo_props_def new_Transform_def demo_ready_random)

lemma demo_stepped_buffers:
  "buffers (gl demo_stepped) 0 = Some [0, 0, 0, 0, 0, 0]"
  "buffers (gl demo_stepped) (Suc 0) = Some [1, 1 / 2, 0, 1, 1 / 2, 0]"
  "buffers (gl demo_stepped) 2 = Some [0, 1]"
  by (simp_all add: demo_stepped_run Transform_run_def copyData_def demo_ready_buffers
      feedback_def vertexAt_def vec3_floats_def demo_kernel_def frameUniforms_def
      new_Transform_def Let_def upt_0_2)


lemma demo_stepped_allocated: "allocated demo_stepped"
proof -
  have g: "same_grid (props demo_ready) (Step demo_frame)" by (simp add: same_grid_def)
  from apply_op_total [OF demo_ready_allocated g, of demo_kernel]
  have "apply_op demo_kernel (Step demo_frame) demo_ready
      = Done (world_of (apply_op demo_kernel (Step demo_frame) demo_ready))"
    by (rule Done_world_of)
  then have "apply_op demo_kernel (Step demo_frame) demo_ready = Done demo_stepped"
    by (simp add: demo_stepped_def apply_op_def)
  from apply_op_allocated [OF demo_ready_allocated g this] show ?thesis by simp
qed

theorem aging_shift_then_advect_witness:
  "allocated demo_stepped
   \<and> image_tex (props demo_stepped) = Some 7
   \<and> 1 \<le> maxAge (props demo_stepped)
   \<and> transform (state demo_stepped) = Some (swap (new_Transform demo_kernel 0 1 2))
   \<and> buffers (gl demo_stepped) 1 = Some [1, 1 / 2, 0, 1, 1 / 2, 0]
   \<and> buffers (gl demo_stepped) 0 = Some [0, 0, 0, 0, 0, 0]
   \<and> (\<exists>w'. runTransformFeedback demo_frame demo_stepped = Done w'
          \<and> buffers (gl w') 1 = Some [1, 1 / 2, 0, 0, 0, 0]
          \<and> buffers (gl w') 0 = Some [2, 5 / 6, 0, 1, 1 / 3, 0]
          \<and> band 1 1 [1, 1 / 2, 0, 0, 0, 0] = band 1 0 [0, 0, 0, 0, 0, 0])"
proof -
  let ?t = "swap (new_Transform demo_kernel 0 1 2)"
  let ?b = "bindings ?t ! currentIndex ?t"
  have b: "sourcePosition ?b = Suc 0" "targetPosition ?b = 0"
    by (simp_all add: swap_def new_Transform_def)
  have img: "image_tex (props demo_stepped) = Some 7"
    and m: "1 \<le> maxAge (props demo_stepped)"
    by (simp_all add: demo_stepped_run demo_props_def)
  have t: "transform (state demo_stepped) = Some ?t"
    by (simp add: demo_stepped_run)
  have s: "buffers (gl demo_stepped) (sourcePosition ?b) = Some [1, 1 / 2, 0, 1, 1 / 2, 0]"
    and d: "buffers (gl demo_stepped) (targetPosition ?b) = Some [0, 0, 0, 0, 0, 0]"
    unfolding b by (rule demo_stepped_buffers)+
  from aging_shift_then_advect [OF demo_stepped_allocated img m t refl s d refl, of demo_frame]
  obtain w' s' d' where r: "runTransformFeedback demo_frame demo_stepped = Done w'"
    "buffers (gl w') (Suc 0) = Some s'" "buffers (gl w') 0 = Some d'"
    "s' = [1, 1 / 2, 0, 0, 0, 0]"
    "\<forall>a. a + 1 < 2 \<longrightarrow> band 1 (a + 1) s' = band 1 a [0, 0, 0, 0, 0, 0]"
    "d' = feedback demo_kernel
       (frameUniforms (props demo_stepped) demo_frame 7 (1 / 3)) s' 2"
    unfolding b by (auto simp add: demo_stepped_run demo_props_def swap_def new_Transform_def)
  from r(5) have "band 1 1 s' = band 1 0 [0, 0, 0, 0, 0, 0]" by simp
  moreover have "d' = [2, 5 / 6, 0, 1, 1 / 3, 0]"
    unfolding r(6) r(4)
    by (simp add: feedback_def upt_0_2 vertexAt_def vec3_floats_def demo_kernel_def
        frameUniforms_def)
  ultimately show ?thesis
    using demo_stepped_allocated img m t r demo_stepped_buffers by auto
qed


section \<open>Teardown and reallocation\<close>

text \<open>
  C4. Teardown is not idempotent in the code. On the layer set up with numParticles = 1 and
  maxAge = 2, the first \<open>deleteTransformFeedback\<close> releases the buffers and leaves
  \<open>initialized\<close> true with the buffer fields undefined; the second call passes the
  \<open>initialized\<close> guard and throws a TypeError on the undefined source buffer.
\<close>

theorem teardown_twice_throws:
  "deleteTransformFeedback demo_ready = Done demo_torn_down
   \<and> initialized (state demo_torn_down)
   \<and> sourcePositions (state demo_torn_down) = None
   \<and> deleteTransformFeedback demo_torn_down = Thrown TypeError demo_torn_down"
  by (simp add: demo_torn_down_def deleteTransformFeedback_def demo_ready_state Let_def
      world_of_def)










section \<open>The random seed\<close>

lemma feedback_second:
  assumes "0 < n"
  shows "feedback demo_kernel u s n ! 1 = s ! 1 + seed u"
proof -
  from assms have "[0..<n] = 0 # [1..<n]" by (simp add: upt_conv_Cons)
  then show ?thesis
    by (simp add: feedback_def vec3_floats_def demo_kernel_def vertexAt_def split: prod.splits)
qed

lemma allocated_draws: "allocated w \<Longrightarrow> allocated (w\<lparr>random_draws := r\<rparr>)"
  by (rule allocated_frame) (simp_all add: allocated_index)

lemma step_target:
  assumes w: "allocated w" and img: "image_tex (props w) = Some img"
    and n: "1 \<le> numParticles (props w)" and m: "1 \<le> maxAge (props w)"
    and t: "transform (state w) = Some t" and k: "vs t = demo_kernel"
  shows "\<exists>base. \<forall>r. \<exists>d'.
      buffers (gl (world_of (step fr (w\<lparr>random_draws := r\<rparr>))))
        (targetPosition (bindings t ! currentIndex t)) = Some d'
      \<and> d' ! 1 = base + r (random_calls w)"
proof -
  define b where "b = bindings t ! currentIndex t"
  from allocated_binding [OF w t b_def] obtain s d where
    s: "buffers (gl w) (sourcePosition b) = Some s"
    and d: "buffers (gl w) (targetPosition b) = Some d"
    by blast
  define s' where "s' = take (3 * numParticles (props w)) s
               @ take (3 * numParticles (props w) * (maxAge (props w) - 1)) d"
  have pos: "0 < numParticles (props w) * maxAge (props w)" using n m by simp
  have "\<exists>d'. buffers (gl (world_of (step fr (w\<lparr>random_draws := r\<rparr>)))) (targetPosition b) = Some d'
      \<and> d' ! 1 = s' ! 1 + r (random_calls w)" for r
  proof -
    let ?w = "w\<lparr>random_draws := r\<rparr>"
    from shift_advect_core [of ?w img t b s d _ fr, OF allocated_draws [OF w]]
    obtain w' d' where r: "runTransformFeedback fr ?w = Done w'"
      "buffers (gl w') (targetPosition b) = Some d'"
      "d' = feedback demo_kernel (frameUniforms (props w) fr img (r (random_calls w))) s'
             (numParticles (props w) * maxAge (props w))"
      using img m t s d by (auto simp add: b_def k s'_def)
    have "d' ! 1 = s' ! 1 + seed (frameUniforms (props w) fr img (r (random_calls w)))"
      unfolding r(3) using pos by (rule feedback_second)
    moreover have "seed (frameUniforms (props w) fr img (r (random_calls w))) = r (random_calls w)"
      by (simp add: frameUniforms_def)
    ultimately have "d' ! 1 = s' ! 1 + r (random_calls w)" by (simp only:)
    moreover have "gl (world_of (step fr ?w)) = gl w'"
      using r(1) by (simp add: step_def world_of_def setNeedsRedraw_def)
    ultimately show ?thesis using r(2) by (intro exI [of _ d']) (simp only: simp_thms)
  qed
  then show ?thesis unfolding b_def by blast
qed

lemma step_same_draw:
  assumes "r1 (random_calls w) = r2 (random_calls w)"
  shows "gl (world_of (step fr (w\<lparr>random_draws := r1\<rparr>)))
           = gl (world_of (step fr (w\<lparr>random_draws := r2\<rparr>)))
       \<and> state (world_of (step fr (w\<lparr>random_draws := r1\<rparr>)))
           = state (world_of (step fr (w\<lparr>random_draws := r2\<rparr>)))"
  using assms
  by (simp add: step_def runTransformFeedback_def Math_random_def Let_def world_of_def
      setNeedsRedraw_def split: option.splits)

text \<open>
  C10. The seed is not an input of the pass: on an allocated world with an image bound,
  \<open>runTransformFeedback\<close> runs the transform with the uniforms whose seed is the next draw
  of the ambient random source, and advances that source. So with the kernel that adds
  the seed to each position's second coordinate, two steps from worlds that differ only in
  the ambient draws end with different buffers when the next draws differ, and with the
  same GL context and state when the next draws are equal.
\<close>

theorem seed_drawn_from_ambient_source:
  assumes w: "allocated w" and img: "image_tex (props w) = Some img"
    and n: "1 \<le> numParticles (props w)" and m: "1 \<le> maxAge (props w)"
    and t: "transform (state w) = Some t" and k: "vs t = demo_kernel"
  shows "(\<exists>w'. runTransformFeedback fr w = Done w'
            \<and> gl w' = Transform_run
                 (copyData (gl w) (sourcePosition (bindings t ! currentIndex t))
                    (targetPosition (bindings t ! currentIndex t)) 0
                    (int (numParticles (props w)) * 4 * 3) (numAgedInstances (state w) * 4 * 3))
                 t (bindings t ! currentIndex t)
                 (frameUniforms (props w) fr img (random_draws w (random_calls w)))
            \<and> random_calls w' = Suc (random_calls w))
       \<and> seed (frameUniforms (props w) fr img (random_draws w (random_calls w)))
           = random_draws w (random_calls w)
       \<and> (r1 (random_calls w) \<noteq> r2 (random_calls w) \<longrightarrow>
            buffers (gl (world_of (step fr (w\<lparr>random_draws := r1\<rparr>))))
              \<noteq> buffers (gl (world_of (step fr (w\<lparr>random_draws := r2\<rparr>)))))
       \<and> (r1 (random_calls w) = r2 (random_calls w) \<longrightarrow>
            gl (world_of (step fr (w\<lparr>random_draws := r1\<rparr>)))
              = gl (world_of (step fr (w\<lparr>random_draws := r2\<rparr>)))
            \<and> state (world_of (step fr (w\<lparr>random_draws := r1\<rparr>)))
              = state (world_of (step fr (w\<lparr>random_draws := r2\<rparr>))))"
proof -
  have i: "currentIndex t < length (bindings t)"
    using w t by (auto elim!: allocatedE)
  from run_bound [OF img t i, of fr]
  have A: "\<exists>w'. runTransformFeedback fr w = Done w'
            \<and> gl w' = Transform_run
                 (copyData (gl w) (sourcePosition (bindings t ! currentIndex t))
                    (targetPosition (bindings t ! currentIndex t)) 0
                    (int (numParticles (props w)) * 4 * 3) (numAgedInstances (state w) * 4 * 3))
                 t (bindings t ! currentIndex t)
                 (frameUniforms (props w) fr img (random_draws w (random_calls w)))
            \<and> random_calls w' = Suc (random_calls w)"
    by blast
  have B: "seed (frameUniforms (props w) fr img (random_draws w (random_calls w)))
           = random_draws w (random_calls w)"
    by (simp add: frameUniforms_def)
  have C: "buffers (gl (world_of (step fr (w\<lparr>random_draws := r1\<rparr>))))
              \<noteq> buffers (gl (world_of (step fr (w\<lparr>random_draws := r2\<rparr>))))"
    if ne: "r1 (random_calls w) \<noteq> r2 (random_calls w)"
  proof
    assume eq: "buffers (gl (world_of (step fr (w\<lparr>random_draws := r1\<rparr>))))
              = buffers (gl (world_of (step fr (w\<lparr>random_draws := r2\<rparr>))))"
    from step_target [OF w img n m t k, of fr] obtain base where
      base: "\<And>r. \<exists>d'. buffers (gl (world_of (step fr (w\<lparr>random_draws := r\<rparr>))))
        (targetPosition (bindings t ! currentIndex t)) = Some d'
        \<and> d' ! 1 = base + r (random_calls w)" by blast
    from base [of r1] base [of r2] eq have "base + r1 (random_calls w) = base + r2 (random_calls w)"
      by auto
    with ne show False by simp
  qed
  from A B C step_same_draw [of r1 w r2 fr] show ?thesis by blast
qed

theorem seed_drawn_from_ambient_source_witness:
  "allocated demo_ready \<and> image_tex (props demo_ready) = Some 7
   \<and> 1 \<le> numParticles (props demo_ready) \<and> 1 \<le> maxAge (props demo_ready)
   \<and> transform (state demo_ready) = Some (new_Transform demo_kernel 0 1 2)
   \<and> vs (new_Transform demo_kernel 0 1 2) = demo_kernel
   \<and> buffers (gl (world_of (step demo_frame (demo_ready\<lparr>random_draws := (\<lambda>n. 0)\<rparr>))))
        \<noteq> buffers (gl (world_of (step demo_frame (demo_ready\<lparr>random_draws := (\<lambda>n. 1)\<rparr>))))"
proof -
  have h: "image_tex (props demo_ready) = Some 7" "1 \<le> numParticles (props demo_ready)"
    "1 \<le> maxAge (props demo_ready)"
    "transform (state demo_ready) = Some (new_Transform demo_kernel 0 1 2)"
    "vs (new_Transform demo_kernel 0 1 2) = demo_kernel"
    by (simp_all add: demo_ready_props demo_props_def demo_ready_state new_Transform_def)
  from seed_drawn_from_ambient_source [OF demo_ready_allocated h,
      of demo_frame "\<lambda>n. 0" "\<lambda>n. 1"]
  show ?thesis using demo_ready_allocated h by simp
qed

end
